theory Spec2Isabelle
  imports Main "HOL-Library.Sublist"
begin

section \<open>Python text\<close>

text \<open>
  Text is a list of characters; a character stands for a code point below 256, so
  \<open>str.lower\<close>, \<open>str.strip\<close> and \<open>str.splitlines\<close> are written out for that range.
  Python's \<open>a in b\<close> on two strings is \<^const>\<open>sublist\<close> (a contiguous occurrence),
  \<open>s.startswith(p)\<close> is \<^const>\<open>prefix\<close>, \<open>s[:n]\<close> is \<^const>\<open>take\<close> and \<open>s[n:]\<close> is
  \<^const>\<open>drop\<close>.
\<close>

definition lower_char :: "char \<Rightarrow> char" where
  "lower_char c =
     (let n = (of_char c :: nat)
      in if (65 \<le> n \<and> n \<le> 90) \<or> (192 \<le> n \<and> n \<le> 222 \<and> n \<noteq> 215)
         then char_of (n + 32) else c)"

definition lower :: "string \<Rightarrow> string" where
  "lower s = map lower_char s"

section \<open>The store: tables \<open>jobs\<close> and \<open>applications\<close>\<close>

text \<open>
  \<open>init_db\<close> creates two tables. A row of \<open>jobs\<close> has the columns below; the
  \<open>AUTOINCREMENT\<close> column \<open>id\<close> is never read by the program and is the position of the
  row in the list. \<open>job_id\<close> is \<open>UNIQUE\<close>. The column \<open>applied_at\<close> is never written, so it
  is \<open>NULL\<close> (\<open>None\<close>) in every row the program inserts; \<open>url\<close> is \<open>NULL\<close> when the scraper
  found no link.
\<close>

record job_row =
  job_id :: string
  title :: string
  company :: string
  location :: string
  url :: "string option"
  posted_date :: string
  status :: string
  applied_at :: "string option"
  "notes" :: string

record application =
  a_job_id :: string
  cover :: string
  resume_path :: string
  attempt_time :: string
  result :: string

record db =
  jobs :: "job_row list"
  applications :: "application list"

text \<open>
  The job dictionary handed to \<open>add_or_update_job\<close>. Six keys are read with \<open>job[...]\<close>;
  \<open>status\<close> and \<open>notes\<close> are read with \<open>job.get(key, default)\<close>, so they may be absent
  (\<open>None\<close> here).
\<close>

record job =
  j_job_id :: string
  j_title :: string
  j_company :: string
  j_location :: string
  j_url :: "string option"
  j_posted_date :: string
  j_status :: "string option"
  j_notes :: "string option"

definition job_ids :: "db \<Rightarrow> string list" where
  "job_ids d = map job_id (jobs d)"

text \<open>
  \<open>add_or_update_job\<close>: the \<open>INSERT\<close> raises \<open>sqlite3.IntegrityError\<close> exactly when a row
  with this \<open>job_id\<close> exists (the only constraint of the table a fresh row can violate);
  the handler then runs the \<open>UPDATE\<close> of the five descriptive columns.
\<close>

definition insert_job :: "job \<Rightarrow> job_row" where
  "insert_job j =
     \<lparr> job_id = j_job_id j, title = j_title j, company = j_company j,
       location = j_location j, url = j_url j, posted_date = j_posted_date j,
       status = (case j_status j of None \<Rightarrow> ''new'' | Some s \<Rightarrow> s),
       applied_at = None,
       notes = (case j_notes j of None \<Rightarrow> [] | Some n \<Rightarrow> n) \<rparr>"

definition update_job :: "job \<Rightarrow> job_row \<Rightarrow> job_row" where
  "update_job j r =
     (if job_id r = j_job_id j
      then r\<lparr> title := j_title j, company := j_company j, location := j_location j,
              url := j_url j, posted_date := j_posted_date j \<rparr>
      else r)"

definition add_or_update_job :: "job \<Rightarrow> db \<Rightarrow> db" where
  "add_or_update_job j d =
     (if j_job_id j \<in> set (job_ids d)
      then d\<lparr> jobs := map (update_job j) (jobs d) \<rparr>
      else d\<lparr> jobs := jobs d @ [insert_job j] \<rparr>)"

text \<open>\<open>set_job_status\<close>: \<open>UPDATE jobs SET status=?, notes=? WHERE job_id=?\<close>.\<close>

definition set_row_status :: "string \<Rightarrow> string \<Rightarrow> string \<Rightarrow> job_row \<Rightarrow> job_row" where
  "set_row_status jid st nt r = (if job_id r = jid then r\<lparr> status := st, notes := nt \<rparr> else r)"

definition set_job_status :: "string \<Rightarrow> string \<Rightarrow> string \<Rightarrow> db \<Rightarrow> db" where
  "set_job_status jid st nt d = d\<lparr> jobs := map (set_row_status jid st nt) (jobs d) \<rparr>"

text \<open>
  \<open>record_application\<close>: one \<open>INSERT\<close> into \<open>applications\<close>; \<open>now\<close> is the reading of
  \<open>datetime.utcnow().isoformat()\<close> taken inside the call.
\<close>

definition record_application :: "string \<Rightarrow> string \<Rightarrow> string \<Rightarrow> string \<Rightarrow> string \<Rightarrow> db \<Rightarrow> db" where
  "record_application jid cover_text rpath res now d =
     d\<lparr> applications := applications d @
          [\<lparr> a_job_id = jid, cover = cover_text, resume_path = rpath,
             attempt_time = now, result = res \<rparr>] \<rparr>"

text \<open>The \<open>UNIQUE\<close> constraint as a predicate on the store.\<close>

definition unique_job_ids :: "db \<Rightarrow> bool" where
  "unique_job_ids d = distinct (job_ids d)"

definition rows_of :: "string \<Rightarrow> db \<Rightarrow> job_row list" where
  "rows_of jid d = filter (\<lambda>r. job_id r = jid) (jobs d)"

section \<open>More Python text\<close>

text \<open>\<open>x or d\<close> on a value that is \<open>None\<close> or a string: the default when \<open>x\<close> is falsy.\<close>

definition py_or :: "string option \<Rightarrow> string \<Rightarrow> string" where
  "py_or x d = (case x of None \<Rightarrow> d | Some s \<Rightarrow> if s = [] then d else s)"

text \<open>Truth value of a value that is \<open>None\<close> or a string.\<close>

definition truthy :: "string option \<Rightarrow> bool" where
  "truthy x = (case x of None \<Rightarrow> False | Some s \<Rightarrow> s \<noteq> [])"

text \<open>\<open>s.replace(c, t)\<close> for a one-character \<open>c\<close>.\<close>

definition replace_char :: "char \<Rightarrow> string \<Rightarrow> string \<Rightarrow> string" where
  "replace_char c t s = concat (map (\<lambda>x. if x = c then t else [x]) s)"

text \<open>\<open>str.isspace\<close> and the line boundaries of \<open>str.splitlines\<close>, below code point 256.\<close>

definition is_space :: "char \<Rightarrow> bool" where
  "is_space c =
     (let n = (of_char c :: nat)
      in (9 \<le> n \<and> n \<le> 13) \<or> (28 \<le> n \<and> n \<le> 32) \<or> n = 133 \<or> n = 160)"

definition strip :: "string \<Rightarrow> string" where
  "strip s = rev (dropWhile is_space (rev (dropWhile is_space s)))"

definition is_linebreak :: "char \<Rightarrow> bool" where
  "is_linebreak c =
     (let n = (of_char c :: nat)
      in (10 \<le> n \<and> n \<le> 13) \<or> (28 \<le> n \<and> n \<le> 30) \<or> n = 133)"

text \<open>
  \<open>splitlines_from cur s\<close>: \<open>cur\<close> is the current line, reversed. A carriage return directly
  followed by a line feed is one boundary; no empty last line is produced.
\<close>

fun splitlines_from :: "string \<Rightarrow> string \<Rightarrow> string list" where
  "splitlines_from cur [] = (if cur = [] then [] else [rev cur])"
| "splitlines_from cur [c] =
     (if is_linebreak c then [rev cur] else [rev (c # cur)])"
| "splitlines_from cur (c # e # cs) =
     (if c = CHR 0x0D \<and> e = CHR 0x0A then rev cur # splitlines_from [] cs
      else if is_linebreak c then rev cur # splitlines_from [] (e # cs)
      else splitlines_from (c # cur) (e # cs))"

definition splitlines :: "string \<Rightarrow> string list" where
  "splitlines s = splitlines_from [] s"

text \<open>\<open>repr\<close> of a string, which \<open>str\<close> of a dictionary applies to its keys and values.\<close>

definition repr_quote :: "string \<Rightarrow> char" where
  "repr_quote s = (if CHR 0x27 \<in> set s \<and> CHR 0x22 \<notin> set s then CHR 0x22 else CHR 0x27)"

definition hex_digit :: "nat \<Rightarrow> char" where
  "hex_digit n = ''0123456789abcdef'' ! (n mod 16)"

definition repr_char :: "char \<Rightarrow> char \<Rightarrow> string" where
  "repr_char q c =
     (let n = (of_char c :: nat)
      in if c = q \<or> c = CHR 0x5C then [CHR 0x5C, c]
         else if c = CHR 0x09 then [CHR 0x5C, CHR ''t'']
         else if c = CHR 0x0A then [CHR 0x5C, CHR ''n'']
         else if c = CHR 0x0D then [CHR 0x5C, CHR ''r'']
         else if n < 32 \<or> n = 127 \<or> (128 \<le> n \<and> n \<le> 160) \<or> n = 173
         then [CHR 0x5C, CHR ''x'', hex_digit (n div 16), hex_digit n]
         else [c])"

definition py_repr :: "string \<Rightarrow> string" where
  "py_repr s = (let q = repr_quote s in [q] @ concat (map (repr_char q) s) @ [q])"

text \<open>
  A dictionary of strings in insertion order; \<open>str_dict\<close> is \<open>str(d)\<close> and \<open>dict_get\<close> is
  \<open>d.get(k)\<close>.
\<close>

type_synonym pydict = "(string \<times> string) list"

fun dict_items :: "pydict \<Rightarrow> string" where
  "dict_items [] = []"
| "dict_items [(k, v)] = py_repr k @ '': '' @ py_repr v"
| "dict_items ((k, v) # kv # kvs) = py_repr k @ '': '' @ py_repr v @ '', '' @ dict_items (kv # kvs)"

definition str_dict :: "pydict \<Rightarrow> string" where
  "str_dict d = ''{'' @ dict_items d @ ''}''"

definition dict_get :: "pydict \<Rightarrow> string \<Rightarrow> string option" where
  "dict_get d k = map_of d k"

section \<open>Failures\<close>

text \<open>
  What the code can raise: the two built-in errors of \<open>check_gmail_and_update\<close>, and the
  failure of an external call (HTTP, IMAP, the browser driver), which carries \<open>str(e)\<close>.
\<close>

datatype exn = TypeError | AttributeError | External string

datatype pyval = PyNone | PyInt int

section \<open>Configuration\<close>

text \<open>
  The module constants read from the environment. \<open>DB_PATH\<close>, \<open>GMAIL_IMAP\<close> and
  \<open>SELENIUM_DRIVER_PATH\<close> only choose which file, server and driver binary are used.
\<close>

record config =
  GMAIL_EMAIL :: "string option"
  GMAIL_PASSWORD :: "string option"
  RESUME_PATH :: string
  JOB_LOCATION :: string
  JOB_ROLE :: string
  APPLY_MODE :: string
  LOCAL_LLM_ENDPOINT :: string

section \<open>Local LLM adapter\<close>

text \<open>
  The JSON object of the reply: its \<open>text\<close> and \<open>generated\<close> entries (absent or \<open>None\<close> is
  \<open>None\<close>) and its \<open>str\<close>. \<open>post\<close> is the HTTP call with \<open>raise_for_status\<close> and \<open>json()\<close>;
  any exception of the three is caught by the same handler.
\<close>

record llm_json =
  j_text :: "string option"
  j_generated :: "string option"
  j_str :: string

definition local_llm_generate :: "config \<Rightarrow> (string \<Rightarrow> exn + llm_json) \<Rightarrow> string \<Rightarrow> string" where
  "local_llm_generate cfg post prompt =
     (if LOCAL_LLM_ENDPOINT cfg \<noteq> []
      then (case post prompt of
              Inr j \<Rightarrow> py_or (j_text j) (py_or (j_generated j) (j_str j))
            | Inl e \<Rightarrow> ''[LLM failure] Generated fallback for prompt: '' @ take 200 prompt)
      else ''Optimized cover for prompt (stub): '' @ take 300 prompt)"

section \<open>Scrapers\<close>

text \<open>
  A job card as the selectors of \<open>search_indeed\<close> see it: the stripped text of the first
  element each selector finds (\<open>None\<close> when it finds none), and for the first \<open>a\<close> element
  its \<open>href\<close> attribute (\<open>Some None\<close>: the element has no such attribute).
\<close>

record indeed_card =
  i_title_tag :: "string option"
  i_jobtitle :: "string option"
  i_company_tag :: "string option"
  i_loc_tag :: "string option"
  i_link_tag :: "string option option"
  i_posted_tag :: "string option"

text \<open>The test both scrapers apply to the posted-date text before \<open>results.append\<close>.\<close>

definition posted_filter :: "string \<Rightarrow> bool" where
  "posted_filter posted =
     (posted \<noteq> [] \<and>
      (sublist ''today'' (lower posted) \<or> sublist ''just posted'' (lower posted) \<or>
       sublist ''1 day'' (lower posted)))"

definition scraped_job :: "string \<Rightarrow> string option \<Rightarrow> string \<Rightarrow> string option \<Rightarrow> string \<Rightarrow> job" where
  "scraped_job cmp ttl loc_text job_url today =
     \<lparr> j_job_id = take 200 (cmp @ ''|'' @ py_or ttl [] @ ''|'' @ py_or job_url []),
       j_title = py_or ttl ''Unknown'',
       j_company = cmp,
       j_location = loc_text,
       j_url = job_url,
       j_posted_date = today,
       j_status = Some ''new'',
       j_notes = Some [] \<rparr>"

definition indeed_title :: "indeed_card \<Rightarrow> string option" where
  "indeed_title c = (case i_title_tag c of Some t \<Rightarrow> Some t | None \<Rightarrow> i_jobtitle c)"

definition indeed_url :: "indeed_card \<Rightarrow> string option" where
  "indeed_url c =
     (case i_link_tag c of
        None \<Rightarrow> None
      | Some href \<Rightarrow>
          (case href of
             None \<Rightarrow> None
           | Some h \<Rightarrow> if prefix ''/'' h then Some (''https://www.indeed.com'' @ h) else Some h))"

definition indeed_posted :: "indeed_card \<Rightarrow> string" where
  "indeed_posted c = (case i_posted_tag c of Some p \<Rightarrow> p | None \<Rightarrow> [])"

definition indeed_job :: "string \<Rightarrow> string \<Rightarrow> indeed_card \<Rightarrow> job" where
  "indeed_job loc0 today c =
     scraped_job (case i_company_tag c of Some t \<Rightarrow> t | None \<Rightarrow> ''Unknown'')
       (indeed_title c)
       (case i_loc_tag c of Some t \<Rightarrow> t | None \<Rightarrow> loc0)
       (indeed_url c) today"

fun indeed_cards :: "string \<Rightarrow> string \<Rightarrow> indeed_card list \<Rightarrow> job list" where
  "indeed_cards loc0 today [] = []"
| "indeed_cards loc0 today (c # cs) =
     (if posted_filter (indeed_posted c)
      then indeed_job loc0 today c # indeed_cards loc0 today cs
      else indeed_cards loc0 today cs)"

definition indeed_search_url :: "string \<Rightarrow> string \<Rightarrow> string" where
  "indeed_search_url role loc0 =
     ''https://www.indeed.com/jobs?q='' @ replace_char CHR '' '' ''+'' role @
     ''&l='' @ replace_char CHR '' '' ''+'' loc0"

text \<open>
  \<open>http_get url\<close> is \<open>requests.get\<close> followed by the parse and \<open>soup.select\<close>: it raises, or
  gives the status code and the cards. \<open>today\<close> is \<open>datetime.utcnow().date().isoformat()\<close>.
  \<open>search_indeed\<close> has no handler of its own, so a failure of the request is raised to the
  caller.
\<close>

definition search_indeed ::
  "(string \<Rightarrow> exn + nat \<times> indeed_card list) \<Rightarrow> string \<Rightarrow> string \<Rightarrow> string \<Rightarrow> exn + job list" where
  "search_indeed http_get today role loc0 =
     (case http_get (indeed_search_url role loc0) of
        Inl e \<Rightarrow> Inl e
      | Inr (status_code, cards) \<Rightarrow>
          if status_code \<noteq> 200 then Inr [] else Inr (indeed_cards loc0 today cards))"

text \<open>
  A card of \<open>search_naukri\<close>: \<open>a.title\<close> gives the title text and the \<open>href\<close>; the other three
  selectors give text.
\<close>

record naukri_card =
  n_title_tag :: "(string \<times> string option) option"
  n_company_tag :: "string option"
  n_loc_tag :: "string option"
  n_posted_tag :: "string option"

definition naukri_posted :: "naukri_card \<Rightarrow> string" where
  "naukri_posted c = (case n_posted_tag c of Some p \<Rightarrow> p | None \<Rightarrow> [])"

definition naukri_job :: "string \<Rightarrow> string \<Rightarrow> naukri_card \<Rightarrow> job" where
  "naukri_job loc0 today c =
     scraped_job (case n_company_tag c of Some t \<Rightarrow> t | None \<Rightarrow> ''Unknown'')
       (case n_title_tag c of Some (t, h) \<Rightarrow> Some t | None \<Rightarrow> None)
       (case n_loc_tag c of Some t \<Rightarrow> t | None \<Rightarrow> loc0)
       (case n_title_tag c of Some (t, h) \<Rightarrow> h | None \<Rightarrow> None) today"

fun naukri_cards :: "string \<Rightarrow> string \<Rightarrow> naukri_card list \<Rightarrow> job list" where
  "naukri_cards loc0 today [] = []"
| "naukri_cards loc0 today (c # cs) =
     (if posted_filter (naukri_posted c)
      then naukri_job loc0 today c # naukri_cards loc0 today cs
      else naukri_cards loc0 today cs)"

definition naukri_search_url :: "string \<Rightarrow> string \<Rightarrow> string" where
  "naukri_search_url role loc0 =
     ''https://www.naukri.com/'' @ replace_char CHR '' '' ''-'' role @
     ''-jobs-in-'' @ replace_char CHR '' '' ''-'' loc0"

text \<open>
  \<open>search_naukri\<close> wraps the request and the loop in one handler and does not look at the
  status code; a failed request leaves \<open>results\<close> empty.
\<close>

definition search_naukri ::
  "(string \<Rightarrow> exn + nat \<times> naukri_card list) \<Rightarrow> string \<Rightarrow> string \<Rightarrow> string \<Rightarrow> job list" where
  "search_naukri http_get today role loc0 =
     (case http_get (naukri_search_url role loc0) of
        Inl e \<Rightarrow> []
      | Inr (status_code, cards) \<Rightarrow> naukri_cards loc0 today cards)"

section \<open>Apply logic\<close>

text \<open>
  One browser session, as far as \<open>apply_to_job\<close> can observe it: for each call that may
  raise, \<open>None\<close> when it returns and \<open>Some s\<close> when it raises an exception whose \<open>str\<close> is
  \<open>s\<close>. \<open>quit_raises k\<close> is the outcome of the \<open>k\<close>-th call of \<open>driver.quit()\<close> in the session.
  Failures of finding or clicking the button are swallowed by the loop and leave no trace
  in the result.
\<close>

record session =
  chrome_raises :: "string option"
  get_raises :: "string option"
  file_input_raises :: "string option"
  send_keys_raises :: "string option"
  quit_raises :: "nat \<Rightarrow> string option"

definition selenium_error :: "string \<Rightarrow> pydict" where
  "selenium_error e = [(''result'', ''selenium_error''), (''detail'', e)]"

text \<open>
  The inner handler: \<open>driver.quit()\<close> (its \<open>k\<close>-th call), then \<open>manual_required\<close>; when that
  \<open>quit\<close> raises, the outer handler returns \<open>selenium_error\<close>.
\<close>

definition inner_handler :: "session \<Rightarrow> nat \<Rightarrow> string \<Rightarrow> pydict" where
  "inner_handler ses k e =
     (case quit_raises ses k of
        None \<Rightarrow> [(''result'', ''manual_required''), (''detail'', ''no file input or error: '' @ e)]
      | Some e2 \<Rightarrow> selenium_error e2)"

text \<open>
  The job dictionary of \<open>apply_to_job\<close> is read with \<open>job.get("url")\<close> only: a map from keys
  to values, a value being \<open>None\<close> or a string.
\<close>

definition get_url :: "(string \<rightharpoonup> string option) \<Rightarrow> string option" where
  "get_url job = (case job ''url'' of None \<Rightarrow> None | Some v \<Rightarrow> v)"

definition apply_to_job :: "session \<Rightarrow> (string \<rightharpoonup> string option) \<Rightarrow> pydict" where
  "apply_to_job ses job =
     (let url_value = get_url job
      in if \<not> truthy url_value then [(''result'', ''no_url'')]
         else (case chrome_raises ses of
                  Some e \<Rightarrow> selenium_error e
                | None \<Rightarrow>
                    (case get_raises ses of
                       Some e \<Rightarrow> selenium_error e
                     | None \<Rightarrow>
                         (case file_input_raises ses of
                            Some e \<Rightarrow> inner_handler ses 0 e
                          | None \<Rightarrow>
                              (case send_keys_raises ses of
                                 Some e \<Rightarrow> inner_handler ses 0 e
                               | None \<Rightarrow>
                                   (case quit_raises ses 0 of
                                      Some e \<Rightarrow> inner_handler ses 1 e
                                    | None \<Rightarrow>
                                        [(''result'', ''applied''),
                                         (''detail'', ''file-uploaded-and-clicked'')]))))))"

section \<open>Gmail checker\<close>

text \<open>
  A fetched message is the value of \<open>data.get(b'BODY[HEADER.FIELDS (FROM SUBJECT)]')\<close>:
  \<open>None\<close> when the key is missing (then \<open>.decode\<close> raises \<open>AttributeError\<close>, which the
  handler catches), else the header block. The block is given as text, that is after
  \<open>decode('utf-8', errors='ignore')\<close>, which never raises.
\<close>

type_synonym message = "string option"

text \<open>
  \<open>subject_raw\<close> starts as the bytes object \<open>b""\<close> and becomes a string only when a
  \<open>Subject:\<close> line is found, so \<open>subj\<close> is either of the two.
\<close>

datatype pytext = PyBytes string | PyStr string

definition header_line :: "string \<Rightarrow> pytext \<times> string \<Rightarrow> pytext \<times> string" where
  "header_line line acc =
     (case acc of (subject_raw, frm) \<Rightarrow>
        (if prefix ''subject:'' (lower line) then PyStr (strip (drop 8 line)) else subject_raw,
         if prefix ''from:'' (lower line) then strip (drop 5 line) else frm))"

definition extract_headers :: "message \<Rightarrow> pytext \<times> string" where
  "extract_headers m =
     (case m of
        None \<Rightarrow> (PyStr [], [])
      | Some hdr \<Rightarrow> fold header_line (splitlines hdr) (PyBytes [], []))"

text \<open>
  \<open>SELECT job_id, company, status FROM jobs WHERE status NOT IN ('replied','hired','closed')\<close>.
\<close>

definition open_status :: "string \<Rightarrow> bool" where
  "open_status s = (s \<noteq> ''replied'' \<and> s \<noteq> ''hired'' \<and> s \<noteq> ''closed'')"

definition select_open_jobs :: "db \<Rightarrow> (string \<times> string \<times> string) list" where
  "select_open_jobs d =
     map (\<lambda>r. (job_id r, company r, status r)) (filter (\<lambda>r. open_status (status r)) (jobs d))"

text \<open>
  The loop over the selected rows for one message. The state is the store and the list of
  printed lines \<open>Matched email -> updating job: job_id company\<close>, one before each
  \<open>set_job_status\<close>. With \<open>subj\<close> a bytes object, \<open>frm.lower() + " " + subj.lower()\<close> raises
  \<open>TypeError\<close>; the expression is reached for the first row whose company is truthy.
\<close>

type_synonym matcher_state = "db \<times> (string \<times> string) list"

fun match_rows ::
  "pytext \<Rightarrow> string \<Rightarrow> (string \<times> string \<times> string) list \<Rightarrow> matcher_state
     \<Rightarrow> exn option \<times> matcher_state" where
  "match_rows subj frm [] s = (None, s)"
| "match_rows subj frm ((jid, cmp, st) # rows) (d, out) =
     (if cmp = [] then match_rows subj frm rows (d, out)
      else (case subj of
              PyBytes b \<Rightarrow> (Some TypeError, (d, out))
            | PyStr sj \<Rightarrow>
                if sublist (lower cmp) (lower frm @ '' '' @ lower sj)
                then match_rows subj frm rows
                       (set_job_status jid ''replied''
                          (''Email matched: '' @ sj @ '' from '' @ frm) d,
                        out @ [(jid, cmp)])
                else match_rows subj frm rows (d, out)))"

text \<open>The loop over the messages; the rows are selected again for every message.\<close>

fun message_loop :: "message list \<Rightarrow> matcher_state \<Rightarrow> exn option \<times> matcher_state" where
  "message_loop [] s = (None, s)"
| "message_loop (m # ms) (d, out) =
     (case extract_headers m of (subj, frm) \<Rightarrow>
        (case match_rows subj frm (select_open_jobs d) (d, out) of
           (Some e, s') \<Rightarrow> (Some e, s')
         | (None, s') \<Rightarrow> message_loop ms s'))"

text \<open>
  \<open>check_gmail_and_update\<close>. \<open>inbox\<close> is what connecting, logging in, searching and
  fetching give: an exception, or the fetched messages in the order of \<open>resp.items()\<close>
  (empty when the search finds nothing). The result is the value returned or the
  exception raised, the store, and the printed match lines. Every \<open>return\<close> of the function
  is a bare \<open>return\<close> or the end of the body.
\<close>

definition check_gmail_and_update ::
  "config \<Rightarrow> exn + message list \<Rightarrow> db \<Rightarrow> (exn + pyval) \<times> matcher_state" where
  "check_gmail_and_update cfg inbox d =
     (if \<not> (truthy (GMAIL_EMAIL cfg) \<and> truthy (GMAIL_PASSWORD cfg))
      then (Inr PyNone, (d, []))
      else (case inbox of
              Inl e \<Rightarrow> (Inl e, (d, []))
            | Inr messages \<Rightarrow>
                if messages = [] then (Inr PyNone, (d, []))
                else (case message_loop messages (d, []) of
                        (Some e, s) \<Rightarrow> (Inl e, s)
                      | (None, s) \<Rightarrow> (Inr PyNone, s))))"

section \<open>Orchestration\<close>

text \<open>
  Everything outside the program that one cycle talks to: the two job boards, the clock,
  the LLM endpoint, the browser session opened for a job, and the inbox. \<open>browser\<close> and
  \<open>clock\<close> are indexed by the \<open>job_id\<close> of the loop iteration that uses them.
\<close>

record world =
  indeed_http :: "string \<Rightarrow> exn + nat \<times> indeed_card list"
  naukri_http :: "string \<Rightarrow> exn + nat \<times> naukri_card list"
  today :: string
  llm_post :: "string \<Rightarrow> exn + llm_json"
  browser :: "string \<Rightarrow> session"
  clock :: "string \<Rightarrow> string"
  inbox :: "exn + message list"

text \<open>Step 1: both searches, each failure caught and printed.\<close>

definition jobs_found :: "config \<Rightarrow> world \<Rightarrow> job list" where
  "jobs_found cfg w =
     (case search_indeed (indeed_http w) (today w) (JOB_ROLE cfg) (JOB_LOCATION cfg) of
        Inl e \<Rightarrow> []
      | Inr js \<Rightarrow> js) @
     search_naukri (naukri_http w) (today w) (JOB_ROLE cfg) (JOB_LOCATION cfg)"

text \<open>Step 3, the body of the loop for one selected row.\<close>

definition job_prompt :: "config \<Rightarrow> job_row \<Rightarrow> string" where
  "job_prompt cfg r =
     ''Optimize applicant resume and generate a short cover letter (3 bullets + 3-line intro) for job: ''
     @ title r @ '' at '' @ company r @ ''. Base resume: (local file: '' @ RESUME_PATH cfg @ '')''"

definition job_dict :: "job_row \<Rightarrow> (string \<rightharpoonup> string option)" where
  "job_dict r =
     [''job_id'' \<mapsto> Some (job_id r), ''title'' \<mapsto> Some (title r),
      ''company'' \<mapsto> Some (company r), ''url'' \<mapsto> url r]"

definition process_new_job :: "config \<Rightarrow> world \<Rightarrow> job_row \<Rightarrow> db \<Rightarrow> db" where
  "process_new_job cfg w r d =
     (let cover_text = local_llm_generate cfg (llm_post w) (job_prompt cfg r)
      in if APPLY_MODE cfg = ''auto''
         then (let res = apply_to_job (browser w (job_id r)) (job_dict r);
                   d1 = record_application (job_id r) cover_text (RESUME_PATH cfg)
                          (str_dict res) (clock w (job_id r)) d
               in if dict_get res ''result'' = Some ''applied''
                  then set_job_status (job_id r) ''applied'' (str_dict res) d1
                  else if dict_get res ''result'' = Some ''manual_required''
                  then set_job_status (job_id r) ''queued_manual''
                         (case dict_get res ''detail'' of Some x \<Rightarrow> x | None \<Rightarrow> []) d1
                  else set_job_status (job_id r) ''error'' (str_dict res) d1)
         else set_job_status (job_id r) ''queued_manual'' ''Awaiting manual approval to apply''
                (record_application (job_id r) cover_text (RESUME_PATH cfg)
                   ''queued_for_manual'' (clock w (job_id r)) d))"

text \<open>
  Step 3: \<open>SELECT ... FROM jobs WHERE status='new'\<close> is fetched once, before the loop.
\<close>

definition select_new_jobs :: "db \<Rightarrow> job_row list" where
  "select_new_jobs d = filter (\<lambda>r. status r = ''new'') (jobs d)"

definition draft_and_apply :: "config \<Rightarrow> world \<Rightarrow> db \<Rightarrow> db" where
  "draft_and_apply cfg w d = fold (process_new_job cfg w) (select_new_jobs d) d"

text \<open>
  \<open>run_full_cycle\<close>: search, upsert, draft and apply, then the Gmail check, whose exception
  is caught and printed (the store keeps what was written before it).
\<close>

definition run_full_cycle :: "config \<Rightarrow> world \<Rightarrow> db \<Rightarrow> db" where
  "run_full_cycle cfg w d =
     (let d1 = fold add_or_update_job (jobs_found cfg w) d;
          d2 = draft_and_apply cfg w d1
      in fst (snd (check_gmail_and_update cfg (inbox w) d2)))"

section \<open>Sequences of core operations\<close>

datatype op = Upsert job | FullCycle config world | Reconcile config "exn + message list"

fun exec_op :: "op \<Rightarrow> db \<Rightarrow> db" where
  "exec_op (Upsert j) d = add_or_update_job j d"
| "exec_op (FullCycle cfg w) d = run_full_cycle cfg w d"
| "exec_op (Reconcile cfg ib) d = fst (snd (check_gmail_and_update cfg ib d))"

definition exec_ops :: "op list \<Rightarrow> db \<Rightarrow> db" where
  "exec_ops ops d = fold exec_op ops d"

section \<open>The loop body of step 3, by its parts\<close>

text \<open>
  What one iteration of the loop of step 3 computes for its row: the \<open>result\<close> entry of
  the executor, the status and notes it passes to \<open>set_job_status\<close>, and the row it
  passes to \<open>record_application\<close>.
\<close>

definition executor_result :: "world \<Rightarrow> job_row \<Rightarrow> string option" where
  "executor_result w r = dict_get (apply_to_job (browser w (job_id r)) (job_dict r)) ''result''"

definition cycle_status :: "config \<Rightarrow> world \<Rightarrow> job_row \<Rightarrow> string" where
  "cycle_status cfg w r =
     (if APPLY_MODE cfg = ''auto''
      then (if executor_result w r = Some ''applied'' then ''applied''
            else if executor_result w r = Some ''manual_required'' then ''queued_manual''
            else ''error'')
      else ''queued_manual'')"

definition cycle_notes :: "config \<Rightarrow> world \<Rightarrow> job_row \<Rightarrow> string" where
  "cycle_notes cfg w r =
     (let res = apply_to_job (browser w (job_id r)) (job_dict r)
      in if APPLY_MODE cfg = ''auto''
         then (if executor_result w r = Some ''manual_required''
               then (case dict_get res ''detail'' of Some x \<Rightarrow> x | None \<Rightarrow> [])
               else str_dict res)
         else ''Awaiting manual approval to apply'')"

definition cycle_application :: "config \<Rightarrow> world \<Rightarrow> job_row \<Rightarrow> application" where
  "cycle_application cfg w r =
     \<lparr> a_job_id = job_id r,
       cover = local_llm_generate cfg (llm_post w) (job_prompt cfg r),
       resume_path = RESUME_PATH cfg,
       attempt_time = clock w (job_id r),
       result = (if APPLY_MODE cfg = ''auto''
                 then str_dict (apply_to_job (browser w (job_id r)) (job_dict r))
                 else ''queued_for_manual'') \<rparr>"

section \<open>Progress of the rows between two stores\<close>

text \<open>
  \<open>keeps_progress d e\<close>: every row of \<open>d\<close> is still at its place in \<open>e\<close> with the same
  \<open>job_id\<close>, and when its status was not \<open>new\<close> in \<open>d\<close> it is not \<open>new\<close> in \<open>e\<close>.
\<close>

definition keeps_progress :: "db \<Rightarrow> db \<Rightarrow> bool" where
  "keeps_progress d d' =
     (length (jobs d) \<le> length (jobs d') \<and>
      (\<forall>i < length (jobs d).
         job_id (jobs d' ! i) = job_id (jobs d ! i) \<and>
         (status (jobs d ! i) \<noteq> ''new'' \<longrightarrow> status (jobs d' ! i) \<noteq> ''new'')))"

section \<open>The reconcile pass, row by row\<close>

text \<open>
  The subject and sender text of a message as \<open>check_gmail_and_update\<close> extracts them,
  whether the job's company occurs in \<open>frm.lower() + " " + subj.lower()\<close>, the notes written
  on a match, what one message does to one row, and which rows a list of messages marks.
  \<open>subject_found\<close> says that \<open>subj\<close> is a string: the block has a \<open>Subject:\<close> line, or the
  extraction failed in the handler. \<open>printed_matches\<close> lists the printed match lines of a
  pass. \<open>marked_concat\<close> is \<open>marked\<close> with the plain concatenation of From and Subject.
\<close>

definition subject_found :: "message \<Rightarrow> bool" where
  "subject_found m = (case fst (extract_headers m) of PyStr s \<Rightarrow> True | PyBytes b \<Rightarrow> False)"

definition subject_of :: "message \<Rightarrow> string" where
  "subject_of m = (case fst (extract_headers m) of PyStr s \<Rightarrow> s | PyBytes b \<Rightarrow> b)"

definition sender_of :: "message \<Rightarrow> string" where
  "sender_of m = snd (extract_headers m)"

definition company_in_message :: "string \<Rightarrow> message \<Rightarrow> bool" where
  "company_in_message cmp m =
     (cmp \<noteq> [] \<and> sublist (lower cmp) (lower (sender_of m) @ '' '' @ lower (subject_of m)))"

definition match_note :: "message \<Rightarrow> string" where
  "match_note m = ''Email matched: '' @ subject_of m @ '' from '' @ sender_of m"

definition row_hit :: "message \<Rightarrow> job_row \<Rightarrow> bool" where
  "row_hit m r = (open_status (status r) \<and> company_in_message (company r) m)"

definition mark_row :: "message \<Rightarrow> job_row \<Rightarrow> job_row" where
  "mark_row m r = (if row_hit m r then r\<lparr> status := ''replied'', notes := match_note m \<rparr> else r)"

definition marked :: "message list \<Rightarrow> job_row \<Rightarrow> bool" where
  "marked ms r =
     (status r \<notin> {''replied'', ''hired'', ''closed''} \<and> company r \<noteq> [] \<and>
      (\<exists>m \<in> set ms. sublist (lower (company r))
                        (lower (sender_of m) @ '' '' @ lower (subject_of m))))"

fun printed_matches :: "message list \<Rightarrow> job_row list \<Rightarrow> (string \<times> string) list" where
  "printed_matches [] rs = []"
| "printed_matches (m # ms) rs =
     map (\<lambda>r. (job_id r, company r)) (filter (row_hit m) rs) @
     printed_matches ms (map (mark_row m) rs)"

definition marked_concat :: "message list \<Rightarrow> job_row \<Rightarrow> bool" where
  "marked_concat ms r =
     (status r \<notin> {''replied'', ''hired'', ''closed''} \<and> company r \<noteq> [] \<and>
      (\<exists>m \<in> set ms. sublist (lower (company r)) (lower (sender_of m @ subject_of m))))"

section \<open>The ingestion filter in the words of the specification\<close>

text \<open>
  A record is accepted when its posted-date text contains, case-insensitively, one of the
  substrings \<open>today\<close>, \<open>just posted\<close>, \<open>1 day\<close>.
\<close>

definition has_recency_marker :: "string \<Rightarrow> bool" where
  "has_recency_marker posted =
     (\<exists>m \<in> set [''today'', ''just posted'', ''1 day'']. sublist m (lower posted))"

section \<open>Sample data\<close>

text \<open>A small store and two job dictionaries, used to run the operations on.\<close>

definition acme_row :: job_row where
  "acme_row =
     \<lparr> job_id = ''Acme|SWE|https://x/1'', title = ''SWE'', company = ''Acme'',
       location = ''India'', url = Some ''https://x/1'', posted_date = ''2024-01-01'',
       status = ''applied'', applied_at = None, notes = ''sent'' \<rparr>"

definition acme_db :: db where
  "acme_db = \<lparr> jobs = [acme_row], applications = [] \<rparr>"

definition acme_job :: job where
  "acme_job =
     \<lparr> j_job_id = ''Acme|SWE|https://x/1'', j_title = ''Senior SWE'', j_company = ''Acme'',
       j_location = ''Pune'', j_url = Some ''https://x/1'', j_posted_date = ''2024-01-02'',
       j_status = Some ''new'', j_notes = Some [] \<rparr>"

definition bolt_job :: job where
  "bolt_job =
     \<lparr> j_job_id = ''Bolt|QA|'', j_title = ''QA'', j_company = ''Bolt'',
       j_location = ''India'', j_url = None, j_posted_date = ''2024-01-02'',
       j_status = None, j_notes = None \<rparr>"

text \<open>A configuration with Gmail credentials, two header blocks and a failing driver.\<close>

definition gmail_cfg :: config where
  "gmail_cfg =
     \<lparr> GMAIL_EMAIL = Some ''me@gmail.com'', GMAIL_PASSWORD = Some ''secret'',
       RESUME_PATH = ''./resume/my_resume.pdf'', JOB_LOCATION = ''India'',
       JOB_ROLE = ''software engineer'', APPLY_MODE = ''manual'', LOCAL_LLM_ENDPOINT = [] \<rparr>"

definition crlf :: string where
  "crlf = [CHR 0x0D, CHR 0x0A]"

definition interview_msg :: message where
  "interview_msg = Some (''From: hr@acme.com'' @ crlf @ ''Subject: Interview'' @ crlf @ crlf)"

definition no_subject_msg :: message where
  "no_subject_msg = Some (''From: jobs@bolt.io'' @ crlf @ crlf)"

definition no_driver :: session where
  "no_driver =
     \<lparr> chrome_raises = Some ''chromedriver not found'', get_raises = None,
       file_input_raises = None, send_keys_raises = None, quit_raises = (\<lambda>k. None) \<rparr>"

definition bolt_row :: job_row where
  "bolt_row =
     \<lparr> job_id = ''Bolt|QA|https://b/2'', title = ''QA'', company = ''Bolt'',
       location = ''India'', url = Some ''https://b/2'', posted_date = ''2024-01-02'',
       status = ''new'', applied_at = None, notes = [] \<rparr>"

definition two_jobs_db :: db where
  "two_jobs_db = \<lparr> jobs = [acme_row, bolt_row], applications = [] \<rparr>"

definition no_file_input :: session where
  "no_file_input =
     \<lparr> chrome_raises = None, get_raises = None,
       file_input_raises = Some ''no such element'', send_keys_raises = None,
       quit_raises = (\<lambda>k. None) \<rparr>"

definition offline_world :: world where
  "offline_world =
     \<lparr> indeed_http = (\<lambda>u. Inl (External ''offline'')),
       naukri_http = (\<lambda>u. Inl (External ''offline'')),
       today = ''2024-01-03'',
       llm_post = (\<lambda>p. Inl (External ''offline'')),
       browser = (\<lambda>j. no_file_input),
       clock = (\<lambda>j. ''2024-01-03T00:00:05''),
       inbox = Inl (External ''offline'') \<rparr>"


definition sample_ops :: "op list" where
  "sample_ops =
     [Upsert acme_job, FullCycle gmail_cfg offline_world,
      Reconcile gmail_cfg (Inr [interview_msg]), Upsert acme_job]"

definition global_row :: job_row where
  "global_row =
     \<lparr> job_id = ''Global Tech|SWE|https://g/3'', title = ''SWE'', company = ''Global Tech'',
       location = ''India'', url = Some ''https://g/3'', posted_date = ''2024-01-02'',
       status = ''new'', applied_at = None, notes = [] \<rparr>"

definition global_db :: db where
  "global_db = \<lparr> jobs = [global_row], applications = [] \<rparr>"

definition split_msg :: message where
  "split_msg = Some (''From: Recruiting at Global'' @ crlf @ ''Subject: Tech roles'' @ crlf @ crlf)"

text \<open>Two result pages: five cards, two of them with a recent posted-date text.\<close>

definition empty_db :: db where
  "empty_db = \<lparr> jobs = [], applications = [] \<rparr>"

definition card_today :: indeed_card where
  "card_today =
     \<lparr> i_title_tag = Some ''SWE'', i_jobtitle = None, i_company_tag = Some ''Acme'',
       i_loc_tag = None, i_link_tag = Some (Some ''/rc/clk?jk=1''),
       i_posted_tag = Some ''Today'' \<rparr>"

definition card_old :: indeed_card where
  "card_old = card_today\<lparr> i_company_tag := Some ''Oldco'', i_posted_tag := Some ''2 days ago'' \<rparr>"

definition card_undated :: indeed_card where
  "card_undated = card_today\<lparr> i_company_tag := Some ''Nodate'', i_posted_tag := None \<rparr>"

definition ncard_just :: naukri_card where
  "ncard_just =
     \<lparr> n_title_tag = Some (''QA'', Some ''https://www.naukri.com/job/2''),
       n_company_tag = Some ''Bolt'', n_loc_tag = Some ''Pune'',
       n_posted_tag = Some ''Just Posted'' \<rparr>"

definition ncard_old :: naukri_card where
  "ncard_old = ncard_just\<lparr> n_company_tag := Some ''Stale'', n_posted_tag := Some ''30+ Days Ago'' \<rparr>"

definition board_world :: world where
  "board_world =
     offline_world
       \<lparr> indeed_http :=
           (\<lambda>u. if u = ''https://www.indeed.com/jobs?q=software+engineer&l=India''
                then Inr (200, [card_today, card_old, card_undated])
                else Inl (External ''not found'')),
         naukri_http :=
           (\<lambda>u. if u = ''https://www.naukri.com/software-engineer-jobs-in-India''
                then Inr (200, [ncard_just, ncard_old])
                else Inl (External ''not found'')) \<rparr>"

definition acme_found :: job where
  "acme_found =
     \<lparr> j_job_id = ''Acme|SWE|https://www.indeed.com/rc/clk?jk=1'', j_title = ''SWE'',
       j_company = ''Acme'', j_location = ''India'',
       j_url = Some ''https://www.indeed.com/rc/clk?jk=1'', j_posted_date = ''2024-01-03'',
       j_status = Some ''new'', j_notes = Some [] \<rparr>"

definition bolt_found :: job where
  "bolt_found =
     \<lparr> j_job_id = ''Bolt|QA|https://www.naukri.com/job/2'', j_title = ''QA'',
       j_company = ''Bolt'', j_location = ''Pune'',
       j_url = Some ''https://www.naukri.com/job/2'', j_posted_date = ''2024-01-03'',
       j_status = Some ''new'', j_notes = Some [] \<rparr>"

section \<open>Facts about the store operations\<close>

lemma job_id_update_job [simp]: "job_id (update_job j r) = job_id r"
  by (simp add: update_job_def)

lemma status_update_job [simp]: "status (update_job j r) = status r"
  by (simp add: update_job_def)

lemma job_id_set_row_status [simp]: "job_id (set_row_status jid st nt r) = job_id r"
  by (simp add: set_row_status_def)

lemma job_ids_set_job_status [simp]: "job_ids (set_job_status jid st nt d) = job_ids d"
  by (simp add: job_ids_def set_job_status_def comp_def)

lemma job_ids_add_or_update_job:
  "job_ids (add_or_update_job j d) =
     (if j_job_id j \<in> set (job_ids d) then job_ids d else job_ids d @ [j_job_id j])"
  by (simp add: job_ids_def add_or_update_job_def insert_job_def comp_def)

lemma unique_add_or_update_job:
  "unique_job_ids d \<Longrightarrow> unique_job_ids (add_or_update_job j d)"
  by (simp add: unique_job_ids_def job_ids_add_or_update_job)

lemma unique_set_job_status [simp]:
  "unique_job_ids (set_job_status jid st nt d) = unique_job_ids d"
  by (simp add: unique_job_ids_def)

lemma unique_record_application [simp]:
  "unique_job_ids (record_application jid c p res now d) = unique_job_ids d"
  by (simp add: unique_job_ids_def job_ids_def record_application_def)

lemma filter_absent: "jid \<notin> set (map job_id rs) \<Longrightarrow> filter (\<lambda>r. job_id r = jid) rs = []"
  by (induction rs) auto

lemma map_set_row_status_absent:
  "jid \<notin> set (map job_id rs) \<Longrightarrow> map (set_row_status jid st nt) rs = rs"
  by (induction rs) (auto simp: set_row_status_def)

lemma filter_distinct_present:
  "distinct (map job_id rs) \<Longrightarrow> jid \<in> set (map job_id rs)
     \<Longrightarrow> \<exists>r. filter (\<lambda>r. job_id r = jid) rs = [r]"
proof (induction rs)
  case Nil
  then show ?case by simp
next
  case (Cons a rs)
  show ?case
  proof (cases "job_id a = jid")
    case True
    with Cons.prems have "jid \<notin> set (map job_id rs)" by auto
    then have "filter (\<lambda>r. job_id r = jid) rs = []" by (rule filter_absent)
    with True show ?thesis by simp
  next
    case False
    with Cons show ?thesis by auto
  qed
qed

lemma filter_map_update_job:
  "filter (\<lambda>r. job_id r = jid) (map (update_job j) rs)
     = map (update_job j) (filter (\<lambda>r. job_id r = jid) rs)"
  by (induction rs) auto

section \<open>Claims about the store\<close>

text \<open>
  Claim C8. \<open>set_job_status\<close> overwrites the status and the notes of the row with the given
  \<open>job_id\<close> and touches nothing else: the rows keep their order and their \<open>job_id\<close>, every
  row with that \<open>job_id\<close> gets the new status and notes and keeps its other columns, every
  other row and the table \<open>applications\<close> are unchanged. When no row has that \<open>job_id\<close> the
  whole store is returned as it was. The operation has no error result: it is a total
  function on stores.
\<close>

theorem set_job_status_overwrite:
  "(jid \<notin> set (job_ids d) \<longrightarrow> set_job_status jid st nt d = d) \<and>
   length (jobs (set_job_status jid st nt d)) = length (jobs d) \<and>
   (\<forall>i < length (jobs d).
      jobs (set_job_status jid st nt d) ! i =
        (if job_id (jobs d ! i) = jid then (jobs d ! i)\<lparr> status := st, notes := nt \<rparr>
         else jobs d ! i)) \<and>
   applications (set_job_status jid st nt d) = applications d"
proof -
  have "jid \<notin> set (job_ids d) \<longrightarrow> set_job_status jid st nt d = d"
    by (simp add: set_job_status_def job_ids_def map_set_row_status_absent)
  moreover have "\<forall>i < length (jobs d).
      jobs (set_job_status jid st nt d) ! i =
        (if job_id (jobs d ! i) = jid then (jobs d ! i)\<lparr> status := st, notes := nt \<rparr>
         else jobs d ! i)"
    by (simp add: set_job_status_def set_row_status_def)
  ultimately show ?thesis
    by (simp add: set_job_status_def)
qed

theorem set_job_status_overwrite_witness:
  "set_job_status ''zz'' ''applied'' ''n''
      \<lparr> jobs = [\<lparr> job_id = ''k1'', title = ''SWE'', company = ''Acme'', location = ''India'',
                  url = None, posted_date = ''2024-01-01'', status = ''new'',
                  applied_at = None, notes = [] \<rparr>], applications = [] \<rparr>
    = \<lparr> jobs = [\<lparr> job_id = ''k1'', title = ''SWE'', company = ''Acme'', location = ''India'',
                  url = None, posted_date = ''2024-01-01'', status = ''new'',
                  applied_at = None, notes = [] \<rparr>], applications = [] \<rparr> \<and>
   jobs (set_job_status ''k1'' ''applied'' ''n''
      \<lparr> jobs = [\<lparr> job_id = ''k1'', title = ''SWE'', company = ''Acme'', location = ''India'',
                  url = None, posted_date = ''2024-01-01'', status = ''new'',
                  applied_at = None, notes = [] \<rparr>], applications = [] \<rparr>) ! 0
    = \<lparr> job_id = ''k1'', title = ''SWE'', company = ''Acme'', location = ''India'',
        url = None, posted_date = ''2024-01-01'', status = ''applied'',
        applied_at = None, notes = ''n'' \<rparr>"
  using set_job_status_overwrite [of "''zz''"
      "\<lparr> jobs = [\<lparr> job_id = ''k1'', title = ''SWE'', company = ''Acme'', location = ''India'',
                  url = None, posted_date = ''2024-01-01'', status = ''new'',
                  applied_at = None, notes = [] \<rparr>], applications = [] \<rparr>" "''applied''" "''n''"]
    set_job_status_overwrite [of "''k1''"
      "\<lparr> jobs = [\<lparr> job_id = ''k1'', title = ''SWE'', company = ''Acme'', location = ''India'',
                  url = None, posted_date = ''2024-01-01'', status = ''new'',
                  applied_at = None, notes = [] \<rparr>], applications = [] \<rparr>" "''applied''" "''n''"]
  by (simp add: job_ids_def)

text \<open>
  Claim C1. \<open>add_or_update_job\<close> with a \<open>job_id\<close> that is not in the store appends one row,
  whose status is \<open>new\<close> and whose notes are empty when the job dictionary has no \<open>status\<close>
  and no \<open>notes\<close> key. With a \<open>job_id\<close> that is in the store it adds no row and changes, in
  the rows with that \<open>job_id\<close>, only title, company, location, url and posted_date: status,
  notes and applied_at of every row stay as they were, and so do all other rows. On a store
  with unique \<open>job_id\<close>s, calling it twice with the same dictionary leaves exactly one row
  with that \<open>job_id\<close>, and the second call does not change the row (so its status is
  unchanged).
\<close>

theorem add_or_update_job_upsert:
  "(j_job_id j \<notin> set (job_ids d) \<longrightarrow>
      jobs (add_or_update_job j d) = jobs d @ [insert_job j] \<and>
      (j_status j = None \<longrightarrow> status (insert_job j) = ''new'') \<and>
      (j_notes j = None \<longrightarrow> notes (insert_job j) = [])) \<and>
   (j_job_id j \<in> set (job_ids d) \<longrightarrow>
      length (jobs (add_or_update_job j d)) = length (jobs d) \<and>
      (\<forall>i < length (jobs d).
         jobs (add_or_update_job j d) ! i =
           (if job_id (jobs d ! i) = j_job_id j
            then (jobs d ! i)\<lparr> title := j_title j, company := j_company j,
                   location := j_location j, url := j_url j, posted_date := j_posted_date j \<rparr>
            else jobs d ! i))) \<and>
   (unique_job_ids d \<longrightarrow>
      (\<exists>r. rows_of (j_job_id j) (add_or_update_job j d) = [r] \<and>
           rows_of (j_job_id j) (add_or_update_job j (add_or_update_job j d)) = [r])) \<and>
   applications (add_or_update_job j d) = applications d"
proof -
  let ?d1 = "add_or_update_job j d"
  have ins: "j_job_id j \<notin> set (job_ids d) \<longrightarrow>
      jobs ?d1 = jobs d @ [insert_job j] \<and>
      (j_status j = None \<longrightarrow> status (insert_job j) = ''new'') \<and>
      (j_notes j = None \<longrightarrow> notes (insert_job j) = [])"
    by (simp add: add_or_update_job_def insert_job_def)
  have upd: "j_job_id j \<in> set (job_ids d) \<longrightarrow>
      length (jobs ?d1) = length (jobs d) \<and>
      (\<forall>i < length (jobs d).
         jobs ?d1 ! i =
           (if job_id (jobs d ! i) = j_job_id j
            then (jobs d ! i)\<lparr> title := j_title j, company := j_company j,
                   location := j_location j, url := j_url j, posted_date := j_posted_date j \<rparr>
            else jobs d ! i))"
    by (simp add: add_or_update_job_def update_job_def)
  have twice: "\<exists>r. rows_of (j_job_id j) ?d1 = [r] \<and>
                  rows_of (j_job_id j) (add_or_update_job j ?d1) = [r]"
    if u: "unique_job_ids d"
  proof -
    have u1: "distinct (map job_id (jobs ?d1))"
      using unique_add_or_update_job [OF u] by (simp add: unique_job_ids_def job_ids_def)
    have in1: "j_job_id j \<in> set (map job_id (jobs ?d1))"
      using job_ids_add_or_update_job [of j d] by (auto simp: job_ids_def split: if_splits)
    from filter_distinct_present [OF u1 in1]
    obtain r where r: "filter (\<lambda>r. job_id r = j_job_id j) (jobs ?d1) = [r]" by blast
    then have "r \<in> set (filter (\<lambda>r. job_id r = j_job_id j) (jobs ?d1))" by simp
    then have rin: "r \<in> set (jobs ?d1)" and rid: "job_id r = j_job_id j" by auto
    have same: "update_job j r = r"
    proof (cases "j_job_id j \<in> set (job_ids d)")
      case True
      then have "jobs ?d1 = map (update_job j) (jobs d)"
        by (simp add: add_or_update_job_def)
      with rin obtain r0 where "r = update_job j r0" by auto
      then show ?thesis by (simp add: update_job_def)
    next
      case False
      then have "jobs ?d1 = jobs d @ [insert_job j]"
        by (simp add: add_or_update_job_def)
      with rin rid False have "r = insert_job j"
        by (force simp: job_ids_def)
      then show ?thesis by (simp add: update_job_def insert_job_def)
    qed
    have "jobs (add_or_update_job j ?d1) = map (update_job j) (jobs ?d1)"
      using in1 by (simp add: add_or_update_job_def job_ids_def)
    then have "rows_of (j_job_id j) (add_or_update_job j ?d1) = map (update_job j) [r]"
      using r by (simp add: rows_of_def filter_map_update_job)
    with r same show ?thesis by (simp add: rows_of_def)
  qed
  have app: "applications ?d1 = applications d"
    by (simp add: add_or_update_job_def)
  from ins upd twice app show ?thesis by blast
qed

theorem add_or_update_job_upsert_witness:
  "unique_job_ids acme_db \<and>
   j_job_id acme_job \<in> set (job_ids acme_db) \<and>
   jobs (add_or_update_job acme_job acme_db) ! 0 =
     acme_row\<lparr> title := ''Senior SWE'', company := ''Acme'', location := ''Pune'',
                url := Some ''https://x/1'', posted_date := ''2024-01-02'' \<rparr> \<and>
   status (jobs (add_or_update_job acme_job acme_db) ! 0) = ''applied'' \<and>
   (\<exists>r. rows_of (j_job_id acme_job) (add_or_update_job acme_job acme_db) = [r] \<and>
        rows_of (j_job_id acme_job)
          (add_or_update_job acme_job (add_or_update_job acme_job acme_db)) = [r]) \<and>
   j_job_id bolt_job \<notin> set (job_ids acme_db) \<and>
   j_status bolt_job = None \<and> j_notes bolt_job = None \<and>
   jobs (add_or_update_job bolt_job acme_db) = [acme_row, insert_job bolt_job] \<and>
   status (insert_job bolt_job) = ''new'' \<and> notes (insert_job bolt_job) = []"
proof -
  have u: "unique_job_ids acme_db"
    by (simp add: unique_job_ids_def job_ids_def acme_db_def)
  have a: "j_job_id acme_job \<in> set (job_ids acme_db)"
    by (simp add: job_ids_def acme_db_def acme_row_def acme_job_def)
  have b: "j_job_id bolt_job \<notin> set (job_ids acme_db)"
    by (simp add: job_ids_def acme_db_def acme_row_def bolt_job_def)
  have n: "j_status bolt_job = None" "j_notes bolt_job = None"
    by (simp_all add: bolt_job_def)
  have l: "0 < length (jobs acme_db)" "jobs acme_db ! 0 = acme_row" "jobs acme_db = [acme_row]"
    by (simp_all add: acme_db_def)
  have k: "job_id acme_row = j_job_id acme_job"
    by (simp add: acme_row_def acme_job_def)
  have f: "j_title acme_job = ''Senior SWE''" "j_company acme_job = ''Acme''"
    "j_location acme_job = ''Pune''" "j_url acme_job = Some ''https://x/1''"
    "j_posted_date acme_job = ''2024-01-02''"
    by (simp_all add: acme_job_def)
  have s: "status acme_row = ''applied''"
    by (simp add: acme_row_def)
  show ?thesis
    using add_or_update_job_upsert [of acme_job acme_db]
      add_or_update_job_upsert [of bolt_job acme_db] u a b n l k f s
    by simp
qed

section \<open>Claims about the scrapers and the apply logic\<close>

lemma posted_filter_iff: "posted_filter p = has_recency_marker p"
  by (cases p) (auto simp: posted_filter_def has_recency_marker_def lower_def)

lemma indeed_cards_filter:
  "indeed_cards loc0 day cs =
     map (indeed_job loc0 day) (filter (\<lambda>c. has_recency_marker (indeed_posted c)) cs)"
  by (induction cs) (simp_all add: posted_filter_iff)

lemma naukri_cards_filter:
  "naukri_cards loc0 day cs =
     map (naukri_job loc0 day) (filter (\<lambda>c. has_recency_marker (naukri_posted c)) cs)"
  by (induction cs) (simp_all add: posted_filter_iff)

lemma result_inner_handler:
  "dict_get (inner_handler ses k e) ''result'' = Some ''manual_required'' \<or>
   dict_get (inner_handler ses k e) ''result'' = Some ''selenium_error''"
  by (simp add: inner_handler_def selenium_error_def dict_get_def split: option.splits)

text \<open>
  Claim C5, as the code has it. The \<open>result\<close> entry of what \<open>apply_to_job\<close> returns is one of
  \<open>applied\<close>, \<open>manual_required\<close>, \<open>no_url\<close>, \<open>selenium_error\<close>. It is \<open>no_url\<close> (and the
  dictionary has no other entry) when \<open>job.get("url")\<close> is \<open>None\<close> or empty. It is
  \<open>selenium_error\<close>, with \<open>str(e)\<close> as detail, when the job has a URL and the browser session
  cannot be established: \<open>webdriver.Chrome\<close> raises, or \<open>driver.get\<close> raises.
\<close>

theorem apply_to_job_results:
  "dict_get (apply_to_job ses job) ''result'' \<in>
     {Some ''applied'', Some ''manual_required'', Some ''no_url'', Some ''selenium_error''} \<and>
   (\<not> truthy (get_url job) \<longrightarrow> apply_to_job ses job = [(''result'', ''no_url'')]) \<and>
   (truthy (get_url job) \<and> chrome_raises ses = Some e \<longrightarrow>
      apply_to_job ses job = [(''result'', ''selenium_error''), (''detail'', e)]) \<and>
   (truthy (get_url job) \<and> chrome_raises ses = None \<and> get_raises ses = Some e \<longrightarrow>
      apply_to_job ses job = [(''result'', ''selenium_error''), (''detail'', e)])"
proof -
  have "dict_get (apply_to_job ses job) ''result'' \<in>
     {Some ''applied'', Some ''manual_required'', Some ''no_url'', Some ''selenium_error''}"
    using result_inner_handler [of ses 0] result_inner_handler [of ses 1]
    by (auto simp: apply_to_job_def Let_def selenium_error_def dict_get_def
        split: option.splits)
  then show ?thesis
    by (simp add: apply_to_job_def Let_def selenium_error_def)
qed

theorem apply_to_job_results_witness:
  "\<not> truthy (get_url Map.empty) \<and> apply_to_job no_driver Map.empty = [(''result'', ''no_url'')] \<and>
   truthy (get_url [''url'' \<mapsto> Some ''https://x/1'']) \<and>
   chrome_raises no_driver = Some ''chromedriver not found'' \<and>
   apply_to_job no_driver [''url'' \<mapsto> Some ''https://x/1''] =
     [(''result'', ''selenium_error''), (''detail'', ''chromedriver not found'')] \<and>
   truthy (get_url [''url'' \<mapsto> Some ''https://x/1'']) \<and>
   chrome_raises (no_driver\<lparr> chrome_raises := None, get_raises := Some ''timeout'' \<rparr>) = None \<and>
   get_raises (no_driver\<lparr> chrome_raises := None, get_raises := Some ''timeout'' \<rparr>)
     = Some ''timeout'' \<and>
   apply_to_job (no_driver\<lparr> chrome_raises := None, get_raises := Some ''timeout'' \<rparr>)
       [''url'' \<mapsto> Some ''https://x/1''] =
     [(''result'', ''selenium_error''), (''detail'', ''timeout'')]"
proof -
  have a: "\<not> truthy (get_url Map.empty)"
    by (simp add: truthy_def get_url_def)
  have b: "truthy (get_url [''url'' \<mapsto> Some ''https://x/1''])"
    by (simp add: truthy_def get_url_def)
  have c: "chrome_raises no_driver = Some ''chromedriver not found''"
    by (simp add: no_driver_def)
  have d: "chrome_raises (no_driver\<lparr> chrome_raises := None, get_raises := Some ''timeout'' \<rparr>) = None"
    "get_raises (no_driver\<lparr> chrome_raises := None, get_raises := Some ''timeout'' \<rparr>) = Some ''timeout''"
    by simp_all
  show ?thesis
    using apply_to_job_results [of no_driver Map.empty]
      apply_to_job_results [of no_driver "[''url'' \<mapsto> Some ''https://x/1'']"
        "''chromedriver not found''"]
      apply_to_job_results [of "no_driver\<lparr> chrome_raises := None, get_raises := Some ''timeout'' \<rparr>"
        "[''url'' \<mapsto> Some ''https://x/1'']" "''timeout''"]
      a b c d
    by simp
qed

text \<open>
  Claim C5 as stated fails: with a URL and a driver that cannot be started the \<open>result\<close>
  entry is \<open>selenium_error\<close>, which is none of \<open>applied\<close>, \<open>manual_required\<close>, \<open>no_url\<close>,
  \<open>automation_error\<close>.
\<close>

theorem apply_to_job_automation_error_counterexample:
  "dict_get (apply_to_job no_driver [''url'' \<mapsto> Some ''https://x/1'']) ''result''
     = Some ''selenium_error'' \<and>
   dict_get (apply_to_job no_driver [''url'' \<mapsto> Some ''https://x/1'']) ''result'' \<notin>
     {Some ''applied'', Some ''manual_required'', Some ''no_url'', Some ''automation_error''}"
  by (simp add: apply_to_job_def get_url_def truthy_def no_driver_def selenium_error_def
      dict_get_def)

section \<open>Claims about the Gmail check\<close>

text \<open>
  Claim C7, as the code has it. A call of \<open>check_gmail_and_update\<close> that completes returns
  \<open>None\<close>, whatever it updated: the function has no counter and no \<open>return\<close> with a value.
\<close>

theorem check_gmail_returns_none:
  "fst (check_gmail_and_update cfg ib d) = Inr v \<Longrightarrow> v = PyNone"
  by (auto simp: check_gmail_and_update_def split: if_splits sum.splits prod.splits option.splits)

theorem check_gmail_returns_none_witness:
  "fst (check_gmail_and_update gmail_cfg (Inr [interview_msg]) acme_db) = Inr PyNone"
proof -
  have "fst (check_gmail_and_update gmail_cfg (Inr [interview_msg]) acme_db) = Inr PyNone"
    by code_simp
  then obtain v
    where v: "fst (check_gmail_and_update gmail_cfg (Inr [interview_msg]) acme_db) = Inr v"
    by blast
  from check_gmail_returns_none [OF v] v show ?thesis by simp
qed

text \<open>
  Claim C7 as stated fails: with one message from \<open>hr@acme.com\<close> and the Acme job in the
  store, the call completes, sets that one job to \<open>replied\<close> and returns \<open>None\<close>, not the
  count 1.
\<close>

theorem check_gmail_count_counterexample:
  "check_gmail_and_update gmail_cfg (Inr [interview_msg]) acme_db =
     (Inr PyNone,
      (set_job_status ''Acme|SWE|https://x/1'' ''replied''
         ''Email matched: Interview from hr@acme.com'' acme_db,
       [(''Acme|SWE|https://x/1'', ''Acme'')])) \<and>
   status (jobs acme_db ! 0) = ''applied'' \<and>
   status (jobs (fst (snd (check_gmail_and_update gmail_cfg (Inr [interview_msg]) acme_db))) ! 0)
     = ''replied'' \<and>
   fst (check_gmail_and_update gmail_cfg (Inr [interview_msg]) acme_db) \<noteq> Inr (PyInt 1)"
  by code_simp

text \<open>
  Claim C6 on the code: a message whose header block has a \<open>From:\<close> line and no \<open>Subject:\<close>
  line leaves \<open>subj\<close> a bytes object. With a job in the store whose company is not empty,
  the matching expression raises \<open>TypeError\<close>: the call ends with that exception, the store
  is as it was, and the next message, which matches the Acme job, is never looked at.
  Without the first message the same call marks the job.
\<close>

theorem check_gmail_missing_subject_raises:
  "check_gmail_and_update gmail_cfg (Inr [no_subject_msg, interview_msg]) acme_db =
     (Inl TypeError, (acme_db, [])) \<and>
   extract_headers no_subject_msg = (PyBytes [], ''jobs@bolt.io'') \<and>
   status (jobs (fst (snd (check_gmail_and_update gmail_cfg (Inr [interview_msg]) acme_db))) ! 0)
     = ''replied''"
  by code_simp

section \<open>Claims about the cycle\<close>

lemma process_new_job_eq:
  "process_new_job cfg w r d =
     set_job_status (job_id r) (cycle_status cfg w r) (cycle_notes cfg w r)
       (d\<lparr> applications := applications d @ [cycle_application cfg w r] \<rparr>)"
  by (simp add: process_new_job_def Let_def cycle_status_def cycle_notes_def
      cycle_application_def executor_result_def record_application_def)


lemma fold_set_row_status_other:
  "job_id x \<notin> job_id ` set rs \<Longrightarrow>
     fold (\<lambda>r. set_row_status (job_id r) (S r) (N r)) rs x = x"
  by (induction rs arbitrary: x) (auto simp: set_row_status_def)

lemma fold_set_row_status_hit:
  "distinct (map job_id rs) \<Longrightarrow> r \<in> set rs \<Longrightarrow> job_id x = job_id r \<Longrightarrow>
     fold (\<lambda>r. set_row_status (job_id r) (S r) (N r)) rs x = x\<lparr> status := S r, notes := N r \<rparr>"
proof (induction rs arbitrary: x)
  case Nil
  then show ?case by simp
next
  case (Cons a rs)
  show ?case
  proof (cases "job_id a = job_id r")
    case True
    with Cons.prems have ar: "a = r" by force
    from Cons.prems ar have "job_id (x\<lparr> status := S r, notes := N r \<rparr>) \<notin> job_id ` set rs"
      by auto
    then have "fold (\<lambda>r. set_row_status (job_id r) (S r) (N r)) rs (x\<lparr> status := S r, notes := N r \<rparr>)
        = x\<lparr> status := S r, notes := N r \<rparr>"
      by (rule fold_set_row_status_other)
    moreover have "set_row_status (job_id a) (S a) (N a) x = x\<lparr> status := S r, notes := N r \<rparr>"
      using ar Cons.prems(3) by (simp add: set_row_status_def)
    ultimately show ?thesis by simp
  next
    case False
    with Cons.prems have "r \<in> set rs" "distinct (map job_id rs)" by auto
    moreover have "set_row_status (job_id a) (S a) (N a) x = x"
      using False Cons.prems(3) by (simp add: set_row_status_def)
    ultimately show ?thesis
      using Cons.IH [of x] Cons.prems(3) by simp
  qed
qed

lemma unique_rows_eq:
  "unique_job_ids d \<Longrightarrow> x \<in> set (jobs d) \<Longrightarrow> y \<in> set (jobs d) \<Longrightarrow> job_id x = job_id y \<Longrightarrow> x = y"
  by (auto simp: unique_job_ids_def job_ids_def distinct_map inj_on_def)



lemma cycle_status_not_new: "cycle_status cfg w r \<noteq> ''new''"
  by (simp add: cycle_status_def)


lemma two_jobs_facts:
  "unique_job_ids two_jobs_db" "length (jobs two_jobs_db) = 2"
  "jobs two_jobs_db ! 0 = acme_row" "jobs two_jobs_db ! 1 = bolt_row"
  "status acme_row = ''applied''" "status bolt_row = ''new''"
  "select_new_jobs two_jobs_db = [bolt_row]" "applications two_jobs_db = []"
  by (simp_all add: unique_job_ids_def job_ids_def two_jobs_db_def acme_row_def bolt_row_def
      select_new_jobs_def)



section \<open>Status never returns to new\<close>

lemma keeps_progress_refl [simp]: "keeps_progress d d"
  by (simp add: keeps_progress_def)

lemma keeps_progress_trans:
  "keeps_progress d1 d2 \<Longrightarrow> keeps_progress d2 d3 \<Longrightarrow> keeps_progress d1 d3"
  by (auto simp: keeps_progress_def)

lemma keeps_progress_same_jobs: "jobs d' = jobs d \<Longrightarrow> keeps_progress d d'"
  by (simp add: keeps_progress_def)

lemma keeps_progress_add_or_update_job: "keeps_progress d (add_or_update_job j d)"
  by (simp add: keeps_progress_def add_or_update_job_def nth_append)

lemma keeps_progress_set_job_status:
  "st \<noteq> ''new'' \<Longrightarrow> keeps_progress d (set_job_status jid st nt d)"
  by (simp add: keeps_progress_def set_job_status_def set_row_status_def)

lemma keeps_progress_process_new_job: "keeps_progress d (process_new_job cfg w r d)"
proof -
  have "keeps_progress d (d\<lparr> applications := applications d @ [cycle_application cfg w r] \<rparr>)"
    by (rule keeps_progress_same_jobs) simp
  moreover have "keeps_progress (d\<lparr> applications := applications d @ [cycle_application cfg w r] \<rparr>)
      (process_new_job cfg w r d)"
    unfolding process_new_job_eq
    by (rule keeps_progress_set_job_status) (rule cycle_status_not_new)
  ultimately show ?thesis by (rule keeps_progress_trans)
qed

lemma keeps_progress_fold:
  "(\<And>x d. keeps_progress d (f x d)) \<Longrightarrow> keeps_progress d (fold f xs d)"
proof (induction xs arbitrary: d)
  case Nil
  then show ?case by simp
next
  case (Cons x xs)
  have "keeps_progress d (f x d)" by (rule Cons.prems)
  moreover have "keeps_progress (f x d) (fold f xs (f x d))"
    by (rule Cons.IH) (rule Cons.prems)
  ultimately show ?case by (simp add: keeps_progress_trans)
qed

lemma keeps_progress_match_rows:
  "keeps_progress d (fst (snd (match_rows subj frm rows (d, out))))"
proof (induction subj frm rows "(d, out)" arbitrary: d out rule: match_rows.induct)
  case (1 subj frm s)
  then show ?case by simp
next
  case (2 subj frm jid cmp st rows d out)
  show ?case
  proof (cases "cmp = []")
    case True
    with 2 show ?thesis by simp
  next
    case False
    show ?thesis
    proof (cases subj)
      case (PyBytes b)
      with False show ?thesis by simp
    next
      case (PyStr sj)
      show ?thesis
      proof (cases "sublist (lower cmp) (lower frm @ '' '' @ lower sj)")
        case True
        let ?d1 = "set_job_status jid ''replied'' (''Email matched: '' @ sj @ '' from '' @ frm) d"
        have "keeps_progress d ?d1" by (rule keeps_progress_set_job_status) simp
        moreover have "keeps_progress ?d1
            (fst (snd (match_rows subj frm rows (?d1, out @ [(jid, cmp)]))))"
          using 2(2) [OF False PyStr True] .
        ultimately show ?thesis
          using False PyStr True by (simp add: keeps_progress_trans)
      next
        case no: False
        with 2(3) [OF False PyStr no] False PyStr show ?thesis by simp
      qed
    qed
  qed
qed

lemma keeps_progress_message_loop:
  "keeps_progress d (fst (snd (message_loop ms (d, out))))"
proof (induction ms arbitrary: d out)
  case Nil
  then show ?case by simp
next
  case (Cons m ms)
  obtain subj frm where h: "extract_headers m = (subj, frm)" by (cases "extract_headers m")
  obtain e d1 out1 where r: "match_rows subj frm (select_open_jobs d) (d, out) = (e, (d1, out1))"
    by (metis prod_cases3)
  have k1: "keeps_progress d d1"
    using keeps_progress_match_rows [of d subj frm "select_open_jobs d" out] r by simp
  show ?case
  proof (cases e)
    case None
    with h r have "message_loop (m # ms) (d, out) = message_loop ms (d1, out1)" by simp
    with k1 Cons.IH [of d1 out1] show ?thesis by (simp add: keeps_progress_trans)
  next
    case (Some x)
    with h r have "message_loop (m # ms) (d, out) = (Some x, (d1, out1))" by simp
    with k1 show ?thesis by simp
  qed
qed

lemma keeps_progress_check_gmail:
  "keeps_progress d (fst (snd (check_gmail_and_update cfg ib d)))"
proof (cases "truthy (GMAIL_EMAIL cfg) \<and> truthy (GMAIL_PASSWORD cfg)")
  case False
  then show ?thesis by (auto simp: check_gmail_and_update_def)
next
  case True
  show ?thesis
  proof (cases ib)
    case (Inl e)
    with True show ?thesis by (simp add: check_gmail_and_update_def)
  next
    case (Inr ms)
    show ?thesis
    proof (cases "ms = []")
      case True
      with \<open>truthy (GMAIL_EMAIL cfg) \<and> truthy (GMAIL_PASSWORD cfg)\<close> Inr show ?thesis
        by (simp add: check_gmail_and_update_def)
    next
      case False
      obtain e s where l: "message_loop ms (d, []) = (e, s)" by (cases "message_loop ms (d, [])")
      with True Inr False have "snd (check_gmail_and_update cfg ib d) = s"
        by (cases e) (simp_all add: check_gmail_and_update_def)
      with keeps_progress_message_loop [of d ms "[]"] l show ?thesis by simp
    qed
  qed
qed

lemma keeps_progress_draft_and_apply: "keeps_progress d (draft_and_apply cfg w d)"
  unfolding draft_and_apply_def
  by (rule keeps_progress_fold) (rule keeps_progress_process_new_job)

lemma keeps_progress_run_full_cycle: "keeps_progress d (run_full_cycle cfg w d)"
proof -
  let ?d1 = "fold add_or_update_job (jobs_found cfg w) d"
  let ?d2 = "draft_and_apply cfg w ?d1"
  have "keeps_progress d ?d1"
    by (rule keeps_progress_fold) (rule keeps_progress_add_or_update_job)
  moreover have "keeps_progress ?d1 ?d2" by (rule keeps_progress_draft_and_apply)
  moreover have "keeps_progress ?d2 (fst (snd (check_gmail_and_update cfg (inbox w) ?d2)))"
    by (rule keeps_progress_check_gmail)
  ultimately have "keeps_progress d (fst (snd (check_gmail_and_update cfg (inbox w) ?d2)))"
    by (blast intro: keeps_progress_trans)
  then show ?thesis
    by (simp add: run_full_cycle_def Let_def)
qed

lemma keeps_progress_exec_op: "keeps_progress d (exec_op x d)"
  by (cases x)
    (simp_all add: keeps_progress_add_or_update_job keeps_progress_run_full_cycle
      keeps_progress_check_gmail)

lemma keeps_progress_exec_ops: "keeps_progress d (exec_ops ops d)"
  unfolding exec_ops_def
  by (rule keeps_progress_fold) (rule keeps_progress_exec_op)

lemma job_ids_record_application [simp]:
  "job_ids (record_application jid c p res now d) = job_ids d"
  by (simp add: job_ids_def record_application_def)

lemma job_ids_process_new_job [simp]: "job_ids (process_new_job cfg w r d) = job_ids d"
  by (simp add: process_new_job_eq) (simp add: job_ids_def)

lemma job_ids_fold_same:
  "(\<And>x d. job_ids (f x d) = job_ids d) \<Longrightarrow> job_ids (fold f xs d) = job_ids d"
  by (induction xs arbitrary: d) simp_all

lemma job_ids_draft_and_apply [simp]: "job_ids (draft_and_apply cfg w d) = job_ids d"
  unfolding draft_and_apply_def by (rule job_ids_fold_same) simp

lemma job_ids_match_rows [simp]:
  "job_ids (fst (snd (match_rows subj frm rows (d, out)))) = job_ids d"
proof (induction subj frm rows "(d, out)" arbitrary: d out rule: match_rows.induct)
  case (1 subj frm s)
  then show ?case by simp
next
  case (2 subj frm jid cmp st rows d out)
  show ?case
  proof (cases "cmp = []")
    case True
    with 2 show ?thesis by simp
  next
    case False
    show ?thesis
    proof (cases subj)
      case (PyBytes b)
      with False show ?thesis by simp
    next
      case (PyStr sj)
      show ?thesis
      proof (cases "sublist (lower cmp) (lower frm @ '' '' @ lower sj)")
        case True
        with 2(2) [OF False PyStr True] False PyStr show ?thesis by simp
      next
        case no: False
        with 2(3) [OF False PyStr no] False PyStr show ?thesis by simp
      qed
    qed
  qed
qed

lemma job_ids_message_loop [simp]:
  "job_ids (fst (snd (message_loop ms (d, out)))) = job_ids d"
proof (induction ms arbitrary: d out)
  case Nil
  then show ?case by simp
next
  case (Cons m ms)
  obtain subj frm where h: "extract_headers m = (subj, frm)" by (cases "extract_headers m")
  obtain e d1 out1 where r: "match_rows subj frm (select_open_jobs d) (d, out) = (e, (d1, out1))"
    by (metis prod_cases3)
  have k1: "job_ids d1 = job_ids d"
    using job_ids_match_rows [of subj frm "select_open_jobs d" d out] r by simp
  show ?case
  proof (cases e)
    case None
    with h r have "message_loop (m # ms) (d, out) = message_loop ms (d1, out1)" by simp
    with k1 Cons.IH [of d1 out1] show ?thesis by simp
  next
    case (Some x)
    with h r have "message_loop (m # ms) (d, out) = (Some x, (d1, out1))" by simp
    with k1 show ?thesis by simp
  qed
qed

lemma snd_check_gmail:
  "snd (check_gmail_and_update cfg ib d) =
     (case ib of
        Inl e \<Rightarrow> (d, [])
      | Inr ms \<Rightarrow>
          if truthy (GMAIL_EMAIL cfg) \<and> truthy (GMAIL_PASSWORD cfg) \<and> ms \<noteq> []
          then snd (message_loop ms (d, [])) else (d, []))"
proof (cases ib)
  case (Inl e)
  then show ?thesis by (simp add: check_gmail_and_update_def)
next
  case (Inr ms)
  obtain e s where l: "message_loop ms (d, []) = (e, s)" by (cases "message_loop ms (d, [])")
  with Inr show ?thesis
    by (cases e) (simp_all add: check_gmail_and_update_def)
qed

lemma job_ids_check_gmail [simp]:
  "job_ids (fst (snd (check_gmail_and_update cfg ib d))) = job_ids d"
  by (simp add: snd_check_gmail split: sum.splits)

lemma unique_fold_add_or_update_job:
  "unique_job_ids d \<Longrightarrow> unique_job_ids (fold add_or_update_job js d)"
  by (induction js arbitrary: d) (simp_all add: unique_add_or_update_job)

lemma unique_run_full_cycle:
  "unique_job_ids d \<Longrightarrow> unique_job_ids (run_full_cycle cfg w d)"
  using unique_fold_add_or_update_job [of d "jobs_found cfg w"]
  by (simp add: run_full_cycle_def Let_def unique_job_ids_def)

lemma unique_check_gmail:
  "unique_job_ids (fst (snd (check_gmail_and_update cfg ib d))) = unique_job_ids d"
  by (simp add: unique_job_ids_def)

lemma unique_exec_op: "unique_job_ids d \<Longrightarrow> unique_job_ids (exec_op x d)"
  by (cases x)
    (simp_all add: unique_add_or_update_job unique_run_full_cycle unique_check_gmail)

lemma unique_exec_ops: "unique_job_ids d \<Longrightarrow> unique_job_ids (exec_ops ops d)"
  unfolding exec_ops_def
  by (induction ops arbitrary: d) (simp_all add: unique_exec_op)

lemma filter_distinct_nth:
  assumes "distinct (map job_id rs)" and "i < length rs"
  shows "filter (\<lambda>r. job_id r = job_id (rs ! i)) rs = [rs ! i]"
proof -
  from assms(2) have "job_id (rs ! i) \<in> set (map job_id rs)" by simp
  from filter_distinct_present [OF assms(1) this]
  obtain r where r: "filter (\<lambda>r. job_id r = job_id (rs ! i)) rs = [r]" by blast
  from assms(2) have "rs ! i \<in> set (filter (\<lambda>r. job_id r = job_id (rs ! i)) rs)" by simp
  with r show ?thesis by simp
qed

text \<open>
  Claim C3. Take any store and any sequence of core operations: upserts
  (\<open>add_or_update_job\<close>), full cycles (\<open>run_full_cycle\<close>) and reconcile passes
  (\<open>check_gmail_and_update\<close>), each with any job dictionary, configuration and outside
  world. A row that is in the store with a status other than \<open>new\<close> is, after the sequence,
  still at its place, with the same \<open>job_id\<close> and a status other than \<open>new\<close>. Said by
  \<open>job_id\<close>: when the store has unique \<open>job_id\<close>s and its one row for a \<open>job_id\<close> has a
  status other than \<open>new\<close> (for instance \<open>replied\<close>, \<open>hired\<close> or \<open>closed\<close>), the store after
  the sequence has unique \<open>job_id\<close>s and its one row for that \<open>job_id\<close> has a status other
  than \<open>new\<close>.
\<close>

theorem status_never_back_to_new:
  "(i < length (jobs d) \<and> status (jobs d ! i) \<noteq> ''new'' \<longrightarrow>
      i < length (jobs (exec_ops ops d)) \<and>
      job_id (jobs (exec_ops ops d) ! i) = job_id (jobs d ! i) \<and>
      status (jobs (exec_ops ops d) ! i) \<noteq> ''new'') \<and>
   (unique_job_ids d \<and> rows_of jid d = [r] \<and> status r \<noteq> ''new'' \<longrightarrow>
      unique_job_ids (exec_ops ops d) \<and>
      (\<exists>r'. rows_of jid (exec_ops ops d) = [r'] \<and> status r' \<noteq> ''new''))"
proof -
  let ?d' = "exec_ops ops d"
  have k: "keeps_progress d ?d'" by (rule keeps_progress_exec_ops)
  have pos: "i < length (jobs ?d') \<and> job_id (jobs ?d' ! i) = job_id (jobs d ! i) \<and>
      status (jobs ?d' ! i) \<noteq> ''new''"
    if "i < length (jobs d)" and "status (jobs d ! i) \<noteq> ''new''" for i
    using k that by (auto simp: keeps_progress_def)
  have byid: "unique_job_ids ?d' \<and> (\<exists>r'. rows_of jid ?d' = [r'] \<and> status r' \<noteq> ''new'')"
    if u: "unique_job_ids d" and r: "rows_of jid d = [r]" and s: "status r \<noteq> ''new''"
  proof -
    from r have "r \<in> set (filter (\<lambda>x. job_id x = jid) (jobs d))" by (simp add: rows_of_def)
    then have rin: "r \<in> set (jobs d)" and rid: "job_id r = jid" by auto
    from rin obtain k where kl: "k < length (jobs d)" and kr: "jobs d ! k = r"
      by (auto simp: in_set_conv_nth)
    from pos [OF kl] kr s have p: "k < length (jobs ?d')" "job_id (jobs ?d' ! k) = jid"
      "status (jobs ?d' ! k) \<noteq> ''new''"
      using rid by auto
    have u': "unique_job_ids ?d'" using u by (rule unique_exec_ops)
    then have "distinct (map job_id (jobs ?d'))" by (simp add: unique_job_ids_def job_ids_def)
    from filter_distinct_nth [OF this p(1)] p(2)
    have "rows_of jid ?d' = [jobs ?d' ! k]" by (simp add: rows_of_def)
    with u' p(3) show ?thesis by simp
  qed
  from pos byid show ?thesis by blast
qed

theorem status_never_back_to_new_witness:
  "0 < length (jobs acme_db) \<and> status (jobs acme_db ! 0) = ''applied'' \<and>
   status (jobs (exec_ops sample_ops acme_db) ! 0) \<noteq> ''new'' \<and>
   unique_job_ids acme_db \<and> rows_of ''Acme|SWE|https://x/1'' acme_db = [acme_row] \<and>
   (\<exists>r'. rows_of ''Acme|SWE|https://x/1'' (exec_ops sample_ops acme_db) = [r'] \<and>
         status r' \<noteq> ''new'')"
proof -
  have a: "0 < length (jobs acme_db)" "status (jobs acme_db ! 0) = ''applied''"
    "unique_job_ids acme_db" "rows_of ''Acme|SWE|https://x/1'' acme_db = [acme_row]"
    "status acme_row \<noteq> ''new''"
    by (simp_all add: acme_db_def acme_row_def unique_job_ids_def job_ids_def rows_of_def)
  note T = status_never_back_to_new [of 0 acme_db sample_ops "''Acme|SWE|https://x/1''" acme_row]
  from T [THEN conjunct1] a have "status (jobs (exec_ops sample_ops acme_db) ! 0) \<noteq> ''new''"
    by simp
  moreover from T [THEN conjunct2] a
  have "\<exists>r'. rows_of ''Acme|SWE|https://x/1'' (exec_ops sample_ops acme_db) = [r'] \<and>
         status r' \<noteq> ''new''"
    by simp
  ultimately show ?thesis using a by simp
qed

section \<open>Claims about the reconcile pass\<close>

lemma job_id_mark_row [simp]: "job_id (mark_row m r) = job_id r"
  by (simp add: mark_row_def)

lemma company_mark_row [simp]: "company (mark_row m r) = company r"
  by (simp add: mark_row_def)

lemma map_job_id_mark_row [simp]: "map job_id (map (mark_row m) rs) = map job_id rs"
  by (simp add: comp_def)

lemma match_rows_str:
  "match_rows (PyStr sj) frm (map (\<lambda>r. (job_id r, company r, status r)) rs) (d, out) =
     (None,
      (fold (\<lambda>r. set_job_status (job_id r) ''replied'' (''Email matched: '' @ sj @ '' from '' @ frm))
         (filter (\<lambda>r. company r \<noteq> [] \<and> sublist (lower (company r)) (lower frm @ '' '' @ lower sj)) rs) d,
       out @ map (\<lambda>r. (job_id r, company r))
         (filter (\<lambda>r. company r \<noteq> [] \<and> sublist (lower (company r)) (lower frm @ '' '' @ lower sj)) rs)))"
  by (induction rs arbitrary: d out) simp_all

lemma fold_set_job_status:
  "fold (\<lambda>r. set_job_status (job_id r) (S r) (N r)) rs d =
     d\<lparr> jobs := map (fold (\<lambda>r. set_row_status (job_id r) (S r) (N r)) rs) (jobs d) \<rparr>"
proof (induction rs arbitrary: d)
  case Nil
  then show ?case by simp
next
  case (Cons r rs)
  have "fold (\<lambda>r. set_job_status (job_id r) (S r) (N r)) (r # rs) d =
      fold (\<lambda>r. set_job_status (job_id r) (S r) (N r)) rs (set_job_status (job_id r) (S r) (N r) d)"
    by simp
  also have "\<dots> = (set_job_status (job_id r) (S r) (N r) d)
      \<lparr> jobs := map (fold (\<lambda>r. set_row_status (job_id r) (S r) (N r)) rs)
                 (jobs (set_job_status (job_id r) (S r) (N r) d)) \<rparr>"
    by (rule Cons.IH)
  also have "\<dots> = d\<lparr> jobs := map (fold (\<lambda>r. set_row_status (job_id r) (S r) (N r)) (r # rs)) (jobs d) \<rparr>"
    by (simp add: set_job_status_def)
  finally show ?case .
qed

lemma one_message_rows:
  assumes u: "unique_job_ids d" and x: "x \<in> set (jobs d)"
  shows "fold (\<lambda>r. set_row_status (job_id r) ''replied'' (match_note m))
           (filter (\<lambda>r. company_in_message (company r) m)
              (filter (\<lambda>r. open_status (status r)) (jobs d))) x = mark_row m x"
proof -
  let ?hs = "filter (\<lambda>r. company_in_message (company r) m)
              (filter (\<lambda>r. open_status (status r)) (jobs d))"
  have dist: "distinct (map job_id ?hs)"
    using u by (simp add: unique_job_ids_def job_ids_def distinct_map_filter)
  show ?thesis
  proof (cases "row_hit m x")
    case True
    with x have "x \<in> set ?hs" by (simp add: row_hit_def)
    from fold_set_row_status_hit [OF dist this refl, of "\<lambda>r. ''replied''" "\<lambda>r. match_note m"] True
    show ?thesis by (simp add: mark_row_def)
  next
    case False
    have "job_id x \<notin> job_id ` set ?hs"
    proof
      assume "job_id x \<in> job_id ` set ?hs"
      then obtain r where r: "r \<in> set (jobs d)" "row_hit m r" "job_id x = job_id r"
        by (auto simp: row_hit_def)
      from unique_rows_eq [OF u x r(1) r(3)] r(2) False show False by simp
    qed
    from fold_set_row_status_other [OF this, of "\<lambda>r. ''replied''" "\<lambda>r. match_note m"] False
    show ?thesis by (simp add: mark_row_def)
  qed
qed

lemma one_message:
  assumes u: "unique_job_ids d" and s: "subject_found m"
  shows "match_rows (fst (extract_headers m)) (snd (extract_headers m)) (select_open_jobs d) (d, out) =
     (None, (d\<lparr> jobs := map (mark_row m) (jobs d) \<rparr>,
             out @ map (\<lambda>r. (job_id r, company r)) (filter (row_hit m) (jobs d))))"
proof -
  from s obtain sj where sj: "fst (extract_headers m) = PyStr sj"
    by (auto simp: subject_found_def split: pytext.splits)
  then have so: "subject_of m = sj" by (simp add: subject_of_def)
  let ?P = "\<lambda>r. company r \<noteq> [] \<and> sublist (lower (company r)) (lower (sender_of m) @ '' '' @ lower sj)"
  let ?os = "filter (\<lambda>r. open_status (status r)) (jobs d)"
  have P: "?P = (\<lambda>r. company_in_message (company r) m)"
    by (simp add: company_in_message_def so)
  have "match_rows (PyStr sj) (sender_of m) (select_open_jobs d) (d, out) =
     (None,
      (fold (\<lambda>r. set_job_status (job_id r) ''replied'' (match_note m)) (filter ?P ?os) d,
       out @ map (\<lambda>r. (job_id r, company r)) (filter ?P ?os)))"
    unfolding select_open_jobs_def match_note_def so
    by (rule match_rows_str)
  moreover have "fold (\<lambda>r. set_job_status (job_id r) ''replied'' (match_note m)) (filter ?P ?os) d
      = d\<lparr> jobs := map (mark_row m) (jobs d) \<rparr>"
    unfolding fold_set_job_status P
    using one_message_rows [OF u, of _ m] by simp
  moreover have "filter ?P ?os = filter (row_hit m) (jobs d)"
    unfolding P by (auto simp: row_hit_def intro: filter_cong)
  ultimately show ?thesis
    using sj by (simp add: sender_of_def)
qed

lemma message_loop_closed:
  assumes "unique_job_ids d" and "\<forall>m \<in> set ms. subject_found m"
  shows "message_loop ms (d, out) =
     (None, (d\<lparr> jobs := map (fold mark_row ms) (jobs d) \<rparr>, out @ printed_matches ms (jobs d)))"
  using assms
proof (induction ms arbitrary: d out)
  case Nil
  then show ?case by simp
next
  case (Cons m ms)
  let ?d1 = "d\<lparr> jobs := map (mark_row m) (jobs d) \<rparr>"
  let ?o1 = "out @ map (\<lambda>r. (job_id r, company r)) (filter (row_hit m) (jobs d))"
  from Cons.prems have s: "subject_found m" and ss: "\<forall>m \<in> set ms. subject_found m" by simp_all
  have u1: "unique_job_ids ?d1"
    using Cons.prems(1) by (simp add: unique_job_ids_def job_ids_def comp_def)
  have "message_loop (m # ms) (d, out) = message_loop ms (?d1, ?o1)"
    using one_message [OF Cons.prems(1) s, of out]
    by (simp add: split_beta)
  also have "\<dots> = (None, (?d1\<lparr> jobs := map (fold mark_row ms) (jobs ?d1) \<rparr>,
                            ?o1 @ printed_matches ms (jobs ?d1)))"
    by (rule Cons.IH [OF u1 ss])
  finally show ?case by (simp add: comp_def)
qed

lemma marked_Nil [simp]: "\<not> marked [] r"
  by (simp add: marked_def)

lemma marked_Cons: "marked (m # ms) r \<longleftrightarrow> row_hit m r \<or> marked ms r"
  by (auto simp: marked_def row_hit_def open_status_def company_in_message_def)

lemma fold_mark_row_closed:
  "\<not> open_status (status r) \<Longrightarrow> fold mark_row ms r = r"
  by (induction ms) (simp_all add: mark_row_def row_hit_def)

lemma fold_mark_row_marked:
  "marked ms r \<Longrightarrow>
     \<exists>m \<in> set ms. company_in_message (company r) m \<and>
        fold mark_row ms r = r\<lparr> status := ''replied'', notes := match_note m \<rparr>"
proof (induction ms)
  case Nil
  then show ?case by simp
next
  case (Cons m ms)
  show ?case
  proof (cases "row_hit m r")
    case True
    then have "mark_row m r = r\<lparr> status := ''replied'', notes := match_note m \<rparr>"
      by (simp add: mark_row_def)
    moreover have "\<not> open_status (status (r\<lparr> status := ''replied'', notes := match_note m \<rparr>))"
      by (simp add: open_status_def)
    ultimately have "fold mark_row (m # ms) r = r\<lparr> status := ''replied'', notes := match_note m \<rparr>"
      by (simp add: fold_mark_row_closed)
    with True show ?thesis by (auto simp: row_hit_def)
  next
    case False
    with Cons.prems have "marked ms r" by (simp add: marked_Cons)
    from Cons.IH [OF this] False show ?thesis by (auto simp: mark_row_def)
  qed
qed

lemma fold_mark_row_unmarked: "\<not> marked ms r \<Longrightarrow> fold mark_row ms r = r"
  by (induction ms) (simp_all add: marked_Cons mark_row_def)

lemma marked_mark_row: "marked ms (mark_row m r) \<longleftrightarrow> \<not> row_hit m r \<and> marked ms r"
  by (auto simp: mark_row_def marked_def)

lemma printed_matches_ids:
  "distinct (map job_id rs) \<Longrightarrow>
     distinct (map fst (printed_matches ms rs)) \<and>
     set (map fst (printed_matches ms rs)) = job_id ` {r \<in> set rs. marked ms r}"
proof (induction ms arbitrary: rs)
  case Nil
  then show ?case by simp
next
  case (Cons m ms)
  let ?rs' = "map (mark_row m) rs"
  have d': "distinct (map job_id ?rs')" using Cons.prems by (simp add: comp_def)
  note IH = Cons.IH [OF d']
  have inj: "inj_on job_id (set rs)" using Cons.prems by (simp add: distinct_map)
  have rest: "job_id ` {r \<in> set ?rs'. marked ms r} = job_id ` {r \<in> set rs. \<not> row_hit m r \<and> marked ms r}"
  proof
    show "job_id ` {r \<in> set ?rs'. marked ms r} \<subseteq> job_id ` {r \<in> set rs. \<not> row_hit m r \<and> marked ms r}"
    proof
      fix j assume "j \<in> job_id ` {r \<in> set ?rs'. marked ms r}"
      then obtain r where r: "r \<in> set rs" "marked ms (mark_row m r)" "j = job_id (mark_row m r)"
        by auto
      then have "\<not> row_hit m r \<and> marked ms r" by (simp add: marked_mark_row)
      with r show "j \<in> job_id ` {r \<in> set rs. \<not> row_hit m r \<and> marked ms r}" by auto
    qed
    show "job_id ` {r \<in> set rs. \<not> row_hit m r \<and> marked ms r} \<subseteq> job_id ` {r \<in> set ?rs'. marked ms r}"
    proof
      fix j assume "j \<in> job_id ` {r \<in> set rs. \<not> row_hit m r \<and> marked ms r}"
      then obtain r where r: "r \<in> set rs" "\<not> row_hit m r" "marked ms r" "j = job_id r" by auto
      then have "mark_row m r \<in> set ?rs'" "marked ms (mark_row m r)" "j = job_id (mark_row m r)"
        by (simp_all add: marked_mark_row)
      then show "j \<in> job_id ` {r \<in> set ?rs'. marked ms r}" by blast
    qed
  qed
  have first: "map fst (map (\<lambda>r. (job_id r, company r)) (filter (row_hit m) rs))
      = map job_id (filter (row_hit m) rs)"
    by (simp add: comp_def)
  have d1: "distinct (map job_id (filter (row_hit m) rs))"
    using Cons.prems by (rule distinct_map_filter)
  have disj: "set (map job_id (filter (row_hit m) rs)) \<inter>
      job_id ` {r \<in> set rs. \<not> row_hit m r \<and> marked ms r} = {}"
  proof (rule ccontr)
    assume "set (map job_id (filter (row_hit m) rs)) \<inter>
      job_id ` {r \<in> set rs. \<not> row_hit m r \<and> marked ms r} \<noteq> {}"
    then obtain a b where ab: "a \<in> set rs" "row_hit m a" "b \<in> set rs" "\<not> row_hit m b"
      "job_id a = job_id b"
      by auto
    from inj ab(1,3,5) have "a = b" by (auto simp: inj_on_def)
    with ab show False by simp
  qed
  have un: "set (map job_id (filter (row_hit m) rs)) \<union>
      job_id ` {r \<in> set rs. \<not> row_hit m r \<and> marked ms r} = job_id ` {r \<in> set rs. marked (m # ms) r}"
    by (auto simp: marked_Cons)
  have eq: "map fst (printed_matches (m # ms) rs) =
      map job_id (filter (row_hit m) rs) @ map fst (printed_matches ms ?rs')"
    by (simp add: comp_def)
  from IH rest have B: "distinct (map fst (printed_matches ms ?rs'))"
    "set (map fst (printed_matches ms ?rs')) = job_id ` {r \<in> set rs. \<not> row_hit m r \<and> marked ms r}"
    by simp_all
  have "distinct (map job_id (filter (row_hit m) rs) @ map fst (printed_matches ms ?rs'))"
    using d1 B disj by (simp only: distinct_append simp_thms)
  moreover have "set (map job_id (filter (row_hit m) rs) @ map fst (printed_matches ms ?rs'))
      = job_id ` {r \<in> set rs. marked (m # ms) r}"
    using B(2) un by (simp only: set_append simp_thms)
  ultimately show ?case unfolding eq by simp
qed

lemma reconcile_closed:
  assumes u: "unique_job_ids d"
    and c: "truthy (GMAIL_EMAIL cfg)" "truthy (GMAIL_PASSWORD cfg)"
    and s: "\<forall>m \<in> set ms. subject_found m"
  shows "check_gmail_and_update cfg (Inr ms) d =
     (Inr PyNone, (d\<lparr> jobs := map (fold mark_row ms) (jobs d) \<rparr>, printed_matches ms (jobs d)))"
proof (cases "ms = []")
  case True
  with c show ?thesis by (simp add: check_gmail_and_update_def)
next
  case False
  with c message_loop_closed [OF u s, of "[]"] show ?thesis
    by (simp add: check_gmail_and_update_def)
qed

text \<open>
  Claim C2, as the code has it. Take a store with unique \<open>job_id\<close>s, Gmail credentials
  that are set, and fetched messages each of which has a \<open>Subject:\<close> line or fails
  extraction altogether. Then the pass completes and returns \<open>None\<close>, and it leaves the
  table \<open>applications\<close> and the number and order of the rows of \<open>jobs\<close> as they were. A row
  is marked exactly when its status is none of \<open>replied\<close>, \<open>hired\<close>, \<open>closed\<close>, its company is
  not empty and the lower-cased company occurs in the lower-cased From text, one space,
  and the lower-cased Subject text of some fetched message: such a row gets the status
  \<open>replied\<close> and the notes \<open>Email matched: subject from sender\<close> of a message in which the
  company occurs, and keeps its other columns; every other row, in particular every row
  whose status is \<open>replied\<close>, \<open>hired\<close> or \<open>closed\<close>, is unchanged. The \<open>job_id\<close>s of the
  printed match lines, one line per \<open>set_job_status\<close> call, are exactly those of the marked
  rows, each once.
\<close>

theorem reconcile_marks_replied:
  assumes u: "unique_job_ids d"
    and c: "truthy (GMAIL_EMAIL cfg)" "truthy (GMAIL_PASSWORD cfg)"
    and s: "\<forall>m \<in> set ms. subject_found m"
  shows "fst (check_gmail_and_update cfg (Inr ms) d) = Inr PyNone \<and>
         length (jobs (fst (snd (check_gmail_and_update cfg (Inr ms) d)))) = length (jobs d) \<and>
         applications (fst (snd (check_gmail_and_update cfg (Inr ms) d))) = applications d \<and>
         (\<forall>i < length (jobs d).
            (marked ms (jobs d ! i) \<longrightarrow>
               (\<exists>m \<in> set ms.
                  sublist (lower (company (jobs d ! i)))
                    (lower (sender_of m) @ '' '' @ lower (subject_of m)) \<and>
                  jobs (fst (snd (check_gmail_and_update cfg (Inr ms) d))) ! i =
                    (jobs d ! i)\<lparr> status := ''replied'',
                       notes := ''Email matched: '' @ subject_of m @ '' from '' @ sender_of m \<rparr>)) \<and>
            (\<not> marked ms (jobs d ! i) \<longrightarrow>
               jobs (fst (snd (check_gmail_and_update cfg (Inr ms) d))) ! i = jobs d ! i) \<and>
            (status (jobs d ! i) \<in> {''replied'', ''hired'', ''closed''} \<longrightarrow>
               jobs (fst (snd (check_gmail_and_update cfg (Inr ms) d))) ! i = jobs d ! i)) \<and>
         set (map fst (snd (snd (check_gmail_and_update cfg (Inr ms) d)))) =
           job_id ` {r \<in> set (jobs d). marked ms r} \<and>
         distinct (map fst (snd (snd (check_gmail_and_update cfg (Inr ms) d))))"
proof -
  note R = reconcile_closed [OF u c s]
  have rows: "\<forall>i < length (jobs d).
      (marked ms (jobs d ! i) \<longrightarrow>
         (\<exists>m \<in> set ms.
            sublist (lower (company (jobs d ! i)))
              (lower (sender_of m) @ '' '' @ lower (subject_of m)) \<and>
            fold mark_row ms (jobs d ! i) =
              (jobs d ! i)\<lparr> status := ''replied'',
                 notes := ''Email matched: '' @ subject_of m @ '' from '' @ sender_of m \<rparr>)) \<and>
      (\<not> marked ms (jobs d ! i) \<longrightarrow> fold mark_row ms (jobs d ! i) = jobs d ! i) \<and>
      (status (jobs d ! i) \<in> {''replied'', ''hired'', ''closed''} \<longrightarrow>
         fold mark_row ms (jobs d ! i) = jobs d ! i)"
  proof (intro allI impI conjI)
    fix i assume "marked ms (jobs d ! i)"
    from fold_mark_row_marked [OF this]
    show "\<exists>m \<in> set ms.
            sublist (lower (company (jobs d ! i)))
              (lower (sender_of m) @ '' '' @ lower (subject_of m)) \<and>
            fold mark_row ms (jobs d ! i) =
              (jobs d ! i)\<lparr> status := ''replied'',
                 notes := ''Email matched: '' @ subject_of m @ '' from '' @ sender_of m \<rparr>"
      by (auto simp: company_in_message_def match_note_def)
  next
    fix i assume "\<not> marked ms (jobs d ! i)"
    then show "fold mark_row ms (jobs d ! i) = jobs d ! i" by (rule fold_mark_row_unmarked)
  next
    fix i assume "status (jobs d ! i) \<in> {''replied'', ''hired'', ''closed''}"
    then have "\<not> open_status (status (jobs d ! i))" by (auto simp: open_status_def)
    then show "fold mark_row ms (jobs d ! i) = jobs d ! i" by (rule fold_mark_row_closed)
  qed
  have dist: "distinct (map job_id (jobs d))"
    using u by (simp add: unique_job_ids_def job_ids_def)
  note P = printed_matches_ids [OF dist, of ms]
  from rows P show ?thesis unfolding R by simp
qed

lemma reconcile_sample_facts:
  "truthy (GMAIL_EMAIL gmail_cfg)" "truthy (GMAIL_PASSWORD gmail_cfg)"
  "\<forall>m \<in> set [interview_msg]. subject_found m"
  "marked [interview_msg] acme_row" "\<not> marked [interview_msg] bolt_row"
  "subject_of interview_msg = ''Interview''" "sender_of interview_msg = ''hr@acme.com''"
  by code_simp+

theorem reconcile_marks_replied_witness:
  "unique_job_ids two_jobs_db \<and>
   truthy (GMAIL_EMAIL gmail_cfg) \<and> truthy (GMAIL_PASSWORD gmail_cfg) \<and>
   subject_found interview_msg \<and>
   marked [interview_msg] (jobs two_jobs_db ! 0) \<and> \<not> marked [interview_msg] (jobs two_jobs_db ! 1) \<and>
   fst (check_gmail_and_update gmail_cfg (Inr [interview_msg]) two_jobs_db) = Inr PyNone \<and>
   jobs (fst (snd (check_gmail_and_update gmail_cfg (Inr [interview_msg]) two_jobs_db))) ! 0 =
     acme_row\<lparr> status := ''replied'', notes := ''Email matched: Interview from hr@acme.com'' \<rparr> \<and>
   jobs (fst (snd (check_gmail_and_update gmail_cfg (Inr [interview_msg]) two_jobs_db))) ! 1 =
     bolt_row \<and>
   set (map fst (snd (snd (check_gmail_and_update gmail_cfg (Inr [interview_msg]) two_jobs_db))))
     = {job_id acme_row}"
proof -
  note f = two_jobs_facts and g = reconcile_sample_facts
  note T = reconcile_marks_replied [OF f(1) g(1) g(2) g(3)]
  note rows = T [THEN conjunct2, THEN conjunct2, THEN conjunct2, THEN conjunct1, rule_format]
  from rows [of 0] f g
  have r0: "jobs (fst (snd (check_gmail_and_update gmail_cfg (Inr [interview_msg]) two_jobs_db))) ! 0 =
     acme_row\<lparr> status := ''replied'', notes := ''Email matched: Interview from hr@acme.com'' \<rparr>"
    by simp
  from rows [of 1] f g
  have r1: "jobs (fst (snd (check_gmail_and_update gmail_cfg (Inr [interview_msg]) two_jobs_db))) ! 1 =
     bolt_row"
    by simp
  have js: "jobs two_jobs_db = [acme_row, bolt_row]" by (simp add: two_jobs_db_def)
  from T [THEN conjunct2, THEN conjunct2, THEN conjunct2, THEN conjunct2, THEN conjunct1] g
  have out: "set (map fst (snd (snd (check_gmail_and_update gmail_cfg (Inr [interview_msg]) two_jobs_db))))
     = {job_id acme_row}"
    by (auto simp: js)
  from T [THEN conjunct1] r0 r1 out f g show ?thesis by simp
qed

text \<open>
  Claim C2 as stated fails where it says concatenation: the company \<open>Global Tech\<close> does not
  occur in the concatenation of the From text \<open>Recruiting at Global\<close> and the Subject text
  \<open>Tech roles\<close>, yet the pass marks the job \<open>replied\<close>, because the code joins the two with a
  space.
\<close>

theorem reconcile_concatenation_counterexample:
  "status global_row \<notin> {''replied'', ''hired'', ''closed''} \<and>
   sender_of split_msg = ''Recruiting at Global'' \<and> subject_of split_msg = ''Tech roles'' \<and>
   \<not> sublist (lower (company global_row)) (lower (sender_of split_msg @ subject_of split_msg)) \<and>
   \<not> marked_concat [split_msg] global_row \<and>
   check_gmail_and_update gmail_cfg (Inr [split_msg]) global_db =
     (Inr PyNone,
      (\<lparr> jobs = [global_row\<lparr> status := ''replied'',
                    notes := ''Email matched: Tech roles from Recruiting at Global'' \<rparr>],
         applications = [] \<rparr>,
       [(''Global Tech|SWE|https://g/3'', ''Global Tech'')]))"
  by code_simp

section \<open>Claims about ingestion\<close>

lemma job_ids_fold_add_or_update_job:
  "set (job_ids (fold add_or_update_job js d)) = set (job_ids d) \<union> j_job_id ` set js"
  by (induction js arbitrary: d) (auto simp: job_ids_add_or_update_job)

lemma job_ids_run_full_cycle:
  "job_ids (run_full_cycle cfg w d) = job_ids (fold add_or_update_job (jobs_found cfg w) d)"
  by (simp add: run_full_cycle_def Let_def)

text \<open>
  Claim C9. The job dictionaries that a cycle hands to \<open>add_or_update_job\<close> are, in order,
  one for each Indeed card (when the request returned status 200) and one for each Naukri
  card (when the request did not fail) whose posted-date text, the text of the card's date
  element or the empty text when it has none, contains, compared in lower case, one of
  \<open>today\<close>, \<open>just posted\<close>, \<open>1 day\<close>; no dictionary is built for any other card. The cycle
  upserts exactly these dictionaries: the \<open>job_id\<close>s in the store after the cycle are those
  that were in it before and those of the accepted cards. The empty text and \<open>2 days ago\<close>
  are not accepted; \<open>Today\<close>, \<open>Just Posted\<close> and \<open>Posted 1 day ago\<close> are.
\<close>

theorem ingestion_filter:
  "jobs_found cfg w =
     (case indeed_http w (indeed_search_url (JOB_ROLE cfg) (JOB_LOCATION cfg)) of
        Inl e \<Rightarrow> []
      | Inr (status_code, cards) \<Rightarrow>
          if status_code \<noteq> 200 then []
          else map (indeed_job (JOB_LOCATION cfg) (today w))
                 (filter (\<lambda>c. has_recency_marker
                            (case i_posted_tag c of None \<Rightarrow> [] | Some p \<Rightarrow> p)) cards)) @
     (case naukri_http w (naukri_search_url (JOB_ROLE cfg) (JOB_LOCATION cfg)) of
        Inl e \<Rightarrow> []
      | Inr (status_code, cards) \<Rightarrow>
          map (naukri_job (JOB_LOCATION cfg) (today w))
            (filter (\<lambda>c. has_recency_marker
                       (case n_posted_tag c of None \<Rightarrow> [] | Some p \<Rightarrow> p)) cards)) \<and>
   job_ids (run_full_cycle cfg w d) = job_ids (fold add_or_update_job (jobs_found cfg w) d) \<and>
   set (job_ids (run_full_cycle cfg w d)) = set (job_ids d) \<union> j_job_id ` set (jobs_found cfg w) \<and>
   \<not> has_recency_marker [] \<and> \<not> has_recency_marker ''2 days ago'' \<and>
   has_recency_marker ''Today'' \<and> has_recency_marker ''Just Posted'' \<and>
   has_recency_marker ''Posted 1 day ago''"
proof -
  have ip: "indeed_posted = (\<lambda>c. case i_posted_tag c of None \<Rightarrow> [] | Some p \<Rightarrow> p)"
    by (auto simp: indeed_posted_def fun_eq_iff split: option.splits)
  have np: "naukri_posted = (\<lambda>c. case n_posted_tag c of None \<Rightarrow> [] | Some p \<Rightarrow> p)"
    by (auto simp: naukri_posted_def fun_eq_iff split: option.splits)
  have found: "jobs_found cfg w =
     (case indeed_http w (indeed_search_url (JOB_ROLE cfg) (JOB_LOCATION cfg)) of
        Inl e \<Rightarrow> []
      | Inr (status_code, cards) \<Rightarrow>
          if status_code \<noteq> 200 then []
          else map (indeed_job (JOB_LOCATION cfg) (today w))
                 (filter (\<lambda>c. has_recency_marker (indeed_posted c)) cards)) @
     (case naukri_http w (naukri_search_url (JOB_ROLE cfg) (JOB_LOCATION cfg)) of
        Inl e \<Rightarrow> []
      | Inr (status_code, cards) \<Rightarrow>
          map (naukri_job (JOB_LOCATION cfg) (today w))
            (filter (\<lambda>c. has_recency_marker (naukri_posted c)) cards))"
    by (simp add: jobs_found_def search_indeed_def search_naukri_def indeed_cards_filter
        naukri_cards_filter split: sum.splits prod.splits)
  have neg: "\<not> has_recency_marker []" "\<not> has_recency_marker ''2 days ago''"
    by code_simp+
  have pos: "has_recency_marker ''Today''" "has_recency_marker ''Just Posted''"
    "has_recency_marker ''Posted 1 day ago''"
    by code_simp+
  have store: "set (job_ids (run_full_cycle cfg w d)) =
      set (job_ids d) \<union> j_job_id ` set (jobs_found cfg w)"
    by (simp only: job_ids_run_full_cycle job_ids_fold_add_or_update_job)
  from found [unfolded ip np] job_ids_run_full_cycle [of cfg w d] store neg pos
  show ?thesis by (simp only: simp_thms)
qed

text \<open>
  A run: of the three Indeed cards dated \<open>Today\<close>, \<open>2 days ago\<close> and undated, and the two
  Naukri cards dated \<open>Just Posted\<close> and \<open>30+ Days Ago\<close>, the first and the fourth reach the
  store.
\<close>

theorem ingestion_filter_witness:
  "indeed_http board_world (indeed_search_url (JOB_ROLE gmail_cfg) (JOB_LOCATION gmail_cfg)) =
     Inr (200, [card_today, card_old, card_undated]) \<and>
   naukri_http board_world (naukri_search_url (JOB_ROLE gmail_cfg) (JOB_LOCATION gmail_cfg)) =
     Inr (200, [ncard_just, ncard_old]) \<and>
   map i_posted_tag [card_today, card_old, card_undated] =
     [Some ''Today'', Some ''2 days ago'', None] \<and>
   map n_posted_tag [ncard_just, ncard_old] = [Some ''Just Posted'', Some ''30+ Days Ago''] \<and>
   jobs_found gmail_cfg board_world = [acme_found, bolt_found] \<and>
   job_ids (run_full_cycle gmail_cfg board_world empty_db) =
     [''Acme|SWE|https://www.indeed.com/rc/clk?jk=1'', ''Bolt|QA|https://www.naukri.com/job/2'']"
proof -
  note T = ingestion_filter [of gmail_cfg board_world empty_db]
  have a: "jobs_found gmail_cfg board_world = [acme_found, bolt_found]"
    by (subst T [THEN conjunct1]) code_simp
  have "job_ids (fold add_or_update_job [acme_found, bolt_found] empty_db) =
     [''Acme|SWE|https://www.indeed.com/rc/clk?jk=1'', ''Bolt|QA|https://www.naukri.com/job/2'']"
    by code_simp
  moreover have "indeed_http board_world
       (indeed_search_url (JOB_ROLE gmail_cfg) (JOB_LOCATION gmail_cfg)) =
     Inr (200, [card_today, card_old, card_undated])"
    "naukri_http board_world
       (naukri_search_url (JOB_ROLE gmail_cfg) (JOB_LOCATION gmail_cfg)) =
     Inr (200, [ncard_just, ncard_old])"
    "map i_posted_tag [card_today, card_old, card_undated] =
       [Some ''Today'', Some ''2 days ago'', None]"
    "map n_posted_tag [ncard_just, ncard_old] = [Some ''Just Posted'', Some ''30+ Days Ago'']"
    by code_simp+
  ultimately show ?thesis
    using T [THEN conjunct2, THEN conjunct1] a by simp
qed

end
